theory Spec2Isabelle
  imports Main "HOL-Library.Word"
begin

unbundle bit_operations_syntax

section \<open>The STM32 I2S streaming driver (drivers/i2s/i2s_ll_stm32.c)\<close>

text \<open>
  A shallow embedding of the driver. Every C function that mutates the device becomes a
  function from the device state to the new device state (and a return code where the C
  function has one). Return codes are C ints: 0 for success and a negated errno value
  for failure. The critical sections (\<open>irq_lock\<close>/\<open>irq_unlock\<close>) mask interrupts
  around index updates and state tests; in this sequential model every function runs
  to completion on its own, so they are left out.
\<close>

subsection \<open>Basic types and constants\<close>

text \<open>A pointer is an address; the null pointer is address 0.\<close>

type_synonym ptr = nat
type_synonym size_t = "32 word"

abbreviation (input) NULL :: ptr where "NULL \<equiv> 0"

text \<open>errno values (POSIX numbering).\<close>

abbreviation (input) EIO :: int where "EIO \<equiv> 5"
abbreviation (input) EAGAIN :: int where "EAGAIN \<equiv> 11"
abbreviation (input) ENOMEM :: int where "ENOMEM \<equiv> 12"
abbreviation (input) EINVAL :: int where "EINVAL \<equiv> 22"
abbreviation (input) ENOSYS :: int where "ENOSYS \<equiv> 88"

text \<open>The build-time options (\<open>#ifdef CONFIG_...\<close>) the driver is compiled with.\<close>

record kconfig =
  CONFIG_I2S_STM32_FULL_DUPLEX :: bool
  CONFIG_I2S_STM32_RX_OVERRUN_DROP :: bool
  CONFIG_I2S_STM32_TX_UNDERRUN_LAST_REPEAT :: bool
  CONFIG_SOC_SERIES_STM32H7X :: bool
  CONFIG_I2S_STM32_USE_PLLI2S_ENABLE :: bool

text \<open>
  The constants of the I2S API header (\<open>zephyr/drivers/i2s.h\<close>) that the driver tests
  configuration fields against. The header is not part of the driver source, so the
  values are parameters of the model.
\<close>

record i2s_h =
  I2S_OPT_FRAME_CLK_SLAVE :: "8 word"
  I2S_OPT_BIT_CLK_SLAVE :: "8 word"
  I2S_OPT_IO_SWAP :: "8 word"
  I2S_FMT_DATA_FORMAT_MASK :: "8 word"
  I2S_FMT_DATA_FORMAT_I2S :: "8 word"
  I2S_FMT_DATA_FORMAT_PCM_SHORT :: "8 word"
  I2S_FMT_DATA_FORMAT_PCM_LONG :: "8 word"
  I2S_FMT_DATA_FORMAT_LEFT_JUSTIFIED :: "8 word"
  I2S_FMT_DATA_FORMAT_RIGHT_JUSTIFIED :: "8 word"
  I2S_FMT_CLK_FORMAT_MASK :: "8 word"
  I2S_FMT_BIT_CLK_INV :: "8 word"

datatype i2s_state =
    I2S_STATE_NOT_READY
  | I2S_STATE_READY
  | I2S_STATE_RUNNING
  | I2S_STATE_STOPPING
  | I2S_STATE_ERROR

text \<open>\<open>I2S_DIR_OTHER\<close> stands for any value of the C enum besides the three named ones.\<close>

datatype i2s_dir = I2S_DIR_RX | I2S_DIR_TX | I2S_DIR_BOTH | I2S_DIR_OTHER

datatype i2s_trigger_cmd =
    I2S_TRIGGER_START
  | I2S_TRIGGER_STOP
  | I2S_TRIGGER_DRAIN
  | I2S_TRIGGER_DROP
  | I2S_TRIGGER_PREPARE
  | I2S_TRIGGER_OTHER

subsection \<open>The block queue\<close>

text \<open>
  \<open>struct queue_item { void *mem_block; size_t size; }\<close> is a pair, and
  \<open>struct ring_buf\<close> has the array and three 16-bit indices. \<open>buf\<close> is indexed by
  \<open>head\<close> and \<open>tail\<close>, which stay below \<open>len\<close> (see \<open>rb_wf\<close>); the array has \<open>len\<close>
  elements, so the accesses are in range.
\<close>

type_synonym queue_item = "ptr \<times> size_t"

record ring_buf =
  buf :: "queue_item list"
  len :: "16 word"
  head :: "16 word"
  tail :: "16 word"

text \<open>\<open>#define MODULO_INC(val, max) { val = (++val < max) ? val : 0; }\<close>\<close>

definition MODULO_INC :: "16 word \<Rightarrow> 16 word \<Rightarrow> 16 word" where
  "MODULO_INC val mx = (let v = val + 1 in if v < mx then v else 0)"

definition queue_get :: "ring_buf \<Rightarrow> int + (queue_item \<times> ring_buf)" where
  "queue_get rb =
     (if tail rb = head rb then Inl (- ENOMEM)
      else Inr (buf rb ! unat (tail rb), rb\<lparr>tail := MODULO_INC (tail rb) (len rb)\<rparr>))"

definition queue_put :: "ring_buf \<Rightarrow> ptr \<Rightarrow> size_t \<Rightarrow> int + ring_buf" where
  "queue_put rb mem_block sz =
     (let head_next = MODULO_INC (head rb) (len rb) in
      if head_next = tail rb then Inl (- ENOMEM)
      else Inr (rb\<lparr>buf := (buf rb)[unat (head rb) := (mem_block, sz)],
                   head := head_next\<rparr>))"

text \<open>
  The ring buffers are static arrays of \<open>BLOCK_COUNT + 1\<close> items with \<open>len\<close> set to the
  array size and both indices starting at 0; \<open>rb_wf\<close> is what that initialisation
  establishes and what both operations keep.
\<close>

definition rb_wf :: "ring_buf \<Rightarrow> bool" where
  "rb_wf rb \<longleftrightarrow> length (buf rb) = unat (len rb) \<and> head rb < len rb \<and> tail rb < len rb"

text \<open>
  The queued entries, oldest first: the slots from \<open>tail\<close> up to \<open>head\<close>, going round
  the array.
\<close>

definition rb_count :: "ring_buf \<Rightarrow> nat" where
  "rb_count rb = (unat (head rb) + unat (len rb) - unat (tail rb)) mod unat (len rb)"

fun rb_slots :: "queue_item list \<Rightarrow> nat \<Rightarrow> nat \<Rightarrow> queue_item list" where
  "rb_slots b t 0 = []"
| "rb_slots b t (Suc n) = b ! t # rb_slots b (Suc t mod length b) n"

definition rb_items :: "ring_buf \<Rightarrow> queue_item list" where
  "rb_items rb = rb_slots (buf rb) (unat (tail rb)) (rb_count rb)"

text \<open>
  A test harness for the queue: a sequence of operations run from a given queue. The
  result is the list of entries the successful gets returned, in order, and the final
  queue; it is \<open>None\<close> when some put was refused. A get on the empty queue changes
  nothing and returns nothing.
\<close>

datatype queue_op = Put ptr size_t | Get

fun puts_of :: "queue_op list \<Rightarrow> queue_item list" where
  "puts_of [] = []"
| "puts_of (Put b sz # ops) = (b, sz) # puts_of ops"
| "puts_of (Get # ops) = puts_of ops"

fun queue_run :: "ring_buf \<Rightarrow> queue_op list \<Rightarrow> (queue_item list \<times> ring_buf) option" where
  "queue_run rb [] = Some ([], rb)"
| "queue_run rb (Put b sz # ops) =
     (case queue_put rb b sz of Inl e \<Rightarrow> None | Inr rb' \<Rightarrow> queue_run rb' ops)"
| "queue_run rb (Get # ops) =
     (case queue_get rb of
        Inl e \<Rightarrow> queue_run rb ops
      | Inr (it, rb') \<Rightarrow>
          (case queue_run rb' ops of None \<Rightarrow> None | Some (got, rb'') \<Rightarrow> Some (it # got, rb'')))"

text \<open>
  Everything a reader can still retrieve: \<open>queue_get\<close> repeated until it fails, as the
  loops of the queue-drop routines do. The loop need not end on an ill-formed queue,
  hence the option.
\<close>

partial_function (option) queue_get_all :: "ring_buf \<Rightarrow> (queue_item list \<times> ring_buf) option" where
  "queue_get_all rb =
     (case queue_get rb of
        Inl e \<Rightarrow> Some ([], rb)
      | Inr (it, rb') \<Rightarrow>
          Option.bind (queue_get_all rb') (\<lambda>(its, rb''). Some (it # its, rb'')))"


subsection \<open>Kernel objects and the hardware the driver talks to\<close>

text \<open>
  Modelled from the spec: the kernel's counting semaphore (\<open>k_sem_give\<close>,
  \<open>k_sem_take\<close>, \<open>k_sem_reset\<close>) is not part of the driver source. It is a counter with
  the limit given to \<open>k_sem_init\<close>; a give at the limit changes nothing. Waiting is not
  modelled: a take on a semaphore whose count is 0 is the case in which the caller's
  timeout expires, and it returns the timeout error.
\<close>

record k_sem =
  sem_count :: nat
  sem_limit :: nat

definition k_sem_give :: "k_sem \<Rightarrow> k_sem" where
  "k_sem_give sm = (if sem_count sm < sem_limit sm then sm\<lparr>sem_count := Suc (sem_count sm)\<rparr> else sm)"

definition k_sem_take :: "k_sem \<Rightarrow> int \<times> k_sem" where
  "k_sem_take sm =
     (if 0 < sem_count sm then (0, sm\<lparr>sem_count := sem_count sm - 1\<rparr>) else (- EAGAIN, sm))"

definition k_sem_reset :: "k_sem \<Rightarrow> k_sem" where
  "k_sem_reset sm = sm\<lparr>sem_count := 0\<rparr>"

text \<open>
  Modelled from the spec: the block pool (\<open>k_mem_slab_alloc\<close> with \<open>K_NO_WAIT\<close>,
  \<open>k_mem_slab_free\<close>) is not part of the driver source. The pools live in a store from
  the address of a slab to its list of free blocks, since both streams may be
  configured with the same slab. A failed allocation returns \<open>-ENOMEM\<close> and stores
  \<open>NULL\<close> in the caller's pointer; free puts the block back whatever it is.
\<close>

type_synonym slab_store = "ptr \<Rightarrow> ptr list"

definition k_mem_slab_alloc :: "ptr \<Rightarrow> slab_store \<Rightarrow> int \<times> ptr \<times> slab_store" where
  "k_mem_slab_alloc slab m =
     (case m slab of [] \<Rightarrow> (- ENOMEM, NULL, m) | b # bs \<Rightarrow> (0, b, m(slab := bs)))"

definition k_mem_slab_free :: "ptr \<Rightarrow> ptr \<Rightarrow> slab_store \<Rightarrow> slab_store" where
  "k_mem_slab_free slab b m = m(slab := b # m slab)"

text \<open>
  Modelled from the spec: the transfer engine (\<open>dma_config\<close>, \<open>dma_start\<close>,
  \<open>dma_reload\<close>, \<open>dma_stop\<close> of the DMA driver) is not part of the driver source. A
  channel is its programmed transfer and whether it runs. The return code of each call
  is supplied from outside (see \<open>ext\<close>); a call that fails leaves the channel as it was.
\<close>

record dma_chan =
  dma_running :: bool
  dma_source_address :: ptr
  dma_dest_address :: ptr
  dma_block_size :: "32 word"
  dma_source_addr_inc :: bool
  dma_dest_addr_inc :: bool
  dma_fifo_mode_control :: "8 word"

definition dma_config :: "int \<Rightarrow> ptr \<Rightarrow> bool \<Rightarrow> ptr \<Rightarrow> bool \<Rightarrow> 8 word \<Rightarrow> 32 word \<Rightarrow> dma_chan
    \<Rightarrow> int \<times> dma_chan" where
  "dma_config ret src src_inc dst dst_inc fifo blk_size ch =
     (if ret < 0 then (ret, ch)
      else (ret, ch\<lparr>dma_source_address := src, dma_dest_address := dst,
                     dma_block_size := blk_size, dma_source_addr_inc := src_inc,
                     dma_dest_addr_inc := dst_inc, dma_fifo_mode_control := fifo\<rparr>))"

definition dma_start :: "int \<Rightarrow> dma_chan \<Rightarrow> int \<times> dma_chan" where
  "dma_start ret ch = (if ret < 0 then (ret, ch) else (ret, ch\<lparr>dma_running := True\<rparr>))"

definition dma_reload :: "int \<Rightarrow> ptr \<Rightarrow> ptr \<Rightarrow> 32 word \<Rightarrow> dma_chan \<Rightarrow> int \<times> dma_chan" where
  "dma_reload ret src dst blk_size ch =
     (if ret < 0 then (ret, ch)
      else (ret, ch\<lparr>dma_source_address := src, dma_dest_address := dst,
                     dma_block_size := blk_size\<rparr>))"

definition dma_stop :: "dma_chan \<Rightarrow> dma_chan" where
  "dma_stop ch = ch\<lparr>dma_running := False\<rparr>"

text \<open>
  What the world outside the driver answers during one call into the driver: the
  return codes of the DMA driver for each direction's channel, whether the I2S PLL
  locks in time, and the input clock frequency the clock tree delivers.
\<close>

record ext =
  rx_dma_config_ret :: int
  rx_dma_start_ret :: int
  rx_dma_reload_ret :: int
  tx_dma_config_ret :: int
  tx_dma_start_ret :: int
  tx_dma_reload_ret :: int
  plli2s_locks :: bool
  freq_in :: "32 word"

text \<open>
  The registers of the I2S peripheral, as far as the \<open>LL_I2S_*\<close> accessors used by the
  driver read and write them. Each accessor of the vendor library sets or reads one
  field.
\<close>

datatype ll_i2s_mode =
    LL_I2S_MODE_SLAVE_TX
  | LL_I2S_MODE_SLAVE_RX
  | LL_I2S_MODE_MASTER_TX
  | LL_I2S_MODE_MASTER_RX
  | LL_I2S_MODE_SLAVE_FULL_DUPLEX
  | LL_I2S_MODE_MASTER_FULL_DUPLEX

datatype ll_i2s_dataformat = LL_I2S_DATAFORMAT_16B | LL_I2S_DATAFORMAT_24B | LL_I2S_DATAFORMAT_32B

datatype ll_i2s_standard =
    LL_I2S_STANDARD_PHILIPS
  | LL_I2S_STANDARD_PCM_SHORT
  | LL_I2S_STANDARD_PCM_LONG
  | LL_I2S_STANDARD_MSB
  | LL_I2S_STANDARD_LSB

datatype ll_i2s_polarity = LL_I2S_POLARITY_LOW | LL_I2S_POLARITY_HIGH

record i2s_regs =
  TransferMode :: ll_i2s_mode
  Enabled :: bool
  DMAReq_RX :: bool
  DMAReq_TX :: bool
  IT_ERR :: bool
  IT_FRE :: bool
  IT_OVR :: bool
  IT_UDR :: bool
  MasterTransfer :: bool
  ActiveFlag_OVR :: bool
  ActiveFlag_UDR :: bool
  ActiveFlag_FRE :: bool
  MasterClock :: bool
  IOSwap :: bool
  DataFormat :: ll_i2s_dataformat
  Standard :: ll_i2s_standard
  ClockPolarity :: ll_i2s_polarity
  ClockSource :: "32 word"
  PrescalerLinear :: "8 word"
  PrescalerParity :: "8 word"

text \<open>
  The enabling and disabling of the error interrupts is the same \<open>#ifdef\<close> block in
  every start and disable routine: three interrupts on the H7 series, one elsewhere.
\<close>

definition LL_I2S_EnableIT_errors :: "kconfig \<Rightarrow> i2s_regs \<Rightarrow> i2s_regs" where
  "LL_I2S_EnableIT_errors k r =
     (if CONFIG_SOC_SERIES_STM32H7X k then r\<lparr>IT_FRE := True, IT_OVR := True, IT_UDR := True\<rparr>
      else r\<lparr>IT_ERR := True\<rparr>)"

definition LL_I2S_DisableIT_errors :: "kconfig \<Rightarrow> i2s_regs \<Rightarrow> i2s_regs" where
  "LL_I2S_DisableIT_errors k r =
     (if CONFIG_SOC_SERIES_STM32H7X k then r\<lparr>IT_FRE := False, IT_OVR := False, IT_UDR := False\<rparr>
      else r\<lparr>IT_ERR := False\<rparr>)"

definition LL_SPI_StartMasterTransfer :: "kconfig \<Rightarrow> i2s_regs \<Rightarrow> i2s_regs" where
  "LL_SPI_StartMasterTransfer k r =
     (if CONFIG_SOC_SERIES_STM32H7X k then r\<lparr>MasterTransfer := True\<rparr> else r)"

definition LL_SPI_SuspendMasterTransfer :: "kconfig \<Rightarrow> i2s_regs \<Rightarrow> i2s_regs" where
  "LL_SPI_SuspendMasterTransfer k r =
     (if CONFIG_SOC_SERIES_STM32H7X k then r\<lparr>MasterTransfer := False\<rparr> else r)"

text \<open>
  \<open>struct i2s_stm32_cfg\<close>: the addresses of the peripheral's data registers that the
  DMA transfers read and write (one register, or separate RX and TX registers on the
  H7 series), and the clock source selection.
\<close>

record i2s_stm32_cfg =
  i2s_DR :: ptr
  i2s_RXDR :: ptr
  i2s_TXDR :: ptr
  i2s_clk_sel :: "32 word"

definition rx_data_reg :: "kconfig \<Rightarrow> i2s_stm32_cfg \<Rightarrow> ptr" where
  "rx_data_reg k c = (if CONFIG_SOC_SERIES_STM32H7X k then i2s_RXDR c else i2s_DR c)"

definition tx_data_reg :: "kconfig \<Rightarrow> i2s_stm32_cfg \<Rightarrow> ptr" where
  "tx_data_reg k c = (if CONFIG_SOC_SERIES_STM32H7X k then i2s_TXDR c else i2s_DR c)"

subsection \<open>Streams and the device\<close>

record i2s_config =
  word_size :: "8 word"
  channels :: "8 word"
  format :: "8 word"
  options :: "8 word"
  frame_clk_freq :: "32 word"
  mem_slab :: ptr
  block_size :: size_t
  timeout :: "32 word"

text \<open>\<open>memset(&stream->cfg, 0, sizeof(struct i2s_config))\<close>\<close>

definition zero_i2s_config :: i2s_config where
  "zero_i2s_config = \<lparr>word_size = 0, channels = 0, format = 0, options = 0,
     frame_clk_freq = 0, mem_slab = NULL, block_size = 0, timeout = 0\<rparr>"

text \<open>
  \<open>struct stream\<close>. Its three function pointers are fixed per direction by the device
  initialiser (\<open>rx_stream_start\<close> for the RX stream, and so on), so they are not fields:
  a stream pointer is the selector \<open>Rx\<close> or \<open>Tx\<close>, and calls through the pointers are the
  dispatchers \<open>stream_start\<close>, \<open>stream_disable\<close> and \<open>queue_drop\<close> below.
\<close>

record stream =
  state :: i2s_state
  sem :: k_sem
  dma_channel :: nat
  src_addr_increment :: bool
  dst_addr_increment :: bool
  fifo_threshold :: "8 word"
  cfg :: i2s_config
  mem_block_queue :: ring_buf
  mem_block :: ptr
  mem_block_size :: size_t
  last_block :: bool
  master :: bool
  last_mem_block :: ptr
  last_mem_block_size :: size_t
  tx_underrun :: bool

text \<open>
  The device: \<open>struct i2s_stm32_data\<close> (the two streams), the peripheral and the two DMA
  channels it drives, the block pools, and the driver's file-scope variables (the
  tables of active DMA channels, where an entry is whether it holds this device, and
  the interrupt counters).
\<close>

record dev =
  rx :: stream
  tx :: stream
  i2s :: i2s_regs
  rx_dma :: dma_chan
  tx_dma :: dma_chan
  slabs :: slab_store
  active_dma_rx_channel :: "bool list"
  active_dma_tx_channel :: "bool list"
  i2s_stm32_irq_count :: "32 word"
  i2s_stm32_irq_ovr_count :: "32 word"
  i2s_stm32_irq_udr_count :: "32 word"
  i2s_stm32_irq_fre_count :: "32 word"

datatype stream_sel = Rx | Tx

definition strm :: "stream_sel \<Rightarrow> dev \<Rightarrow> stream" where
  "strm sel s = (case sel of Rx \<Rightarrow> rx s | Tx \<Rightarrow> tx s)"

definition strm_set :: "stream_sel \<Rightarrow> stream \<Rightarrow> dev \<Rightarrow> dev" where
  "strm_set sel st s = (case sel of Rx \<Rightarrow> s\<lparr>rx := st\<rparr> | Tx \<Rightarrow> s\<lparr>tx := st\<rparr>)"

definition full_duplex_mode :: "dev \<Rightarrow> bool" where
  "full_duplex_mode s \<longleftrightarrow>
     TransferMode (i2s s) = LL_I2S_MODE_MASTER_FULL_DUPLEX
     \<or> TransferMode (i2s s) = LL_I2S_MODE_SLAVE_FULL_DUPLEX"

subsection \<open>Starting and reloading a DMA transfer\<close>

definition reload_dma :: "int \<Rightarrow> int \<Rightarrow> ptr \<Rightarrow> ptr \<Rightarrow> 32 word \<Rightarrow> dma_chan \<Rightarrow> int \<times> dma_chan" where
  "reload_dma reload_ret start_ret src dst blk_size ch =
     (case dma_reload reload_ret src dst blk_size ch of (ret, ch) \<Rightarrow>
        if ret < 0 then (ret, ch) else dma_start start_ret ch)"

definition start_dma :: "int \<Rightarrow> int \<Rightarrow> ptr \<Rightarrow> bool \<Rightarrow> ptr \<Rightarrow> bool \<Rightarrow> 8 word \<Rightarrow> 32 word \<Rightarrow> dma_chan
    \<Rightarrow> int \<times> dma_chan" where
  "start_dma config_ret start_ret src src_inc dst dst_inc fifo blk_size ch =
     (case dma_config config_ret src src_inc dst dst_inc fifo blk_size ch of
        (ret, ch) \<Rightarrow> if ret < 0 then (ret, ch) else dma_start start_ret ch)"

subsection \<open>Disabling a stream\<close>

definition rx_stream_disable :: "kconfig \<Rightarrow> dev \<Rightarrow> dev" where
  "rx_stream_disable k s =
     (let s = s\<lparr>i2s := LL_I2S_DisableIT_errors k
                 ((LL_SPI_SuspendMasterTransfer k (i2s s))\<lparr>DMAReq_RX := False\<rparr>)\<rparr>;
          s = s\<lparr>rx_dma := dma_stop (rx_dma s)\<rparr>;
          s = (if mem_block (rx s) \<noteq> NULL
               then s\<lparr>slabs := k_mem_slab_free (mem_slab (cfg (rx s))) (mem_block (rx s)) (slabs s),
                      rx := (rx s)\<lparr>mem_block := NULL\<rparr>\<rparr>
               else s);
          s = s\<lparr>i2s := (i2s s)\<lparr>Enabled := False\<rparr>\<rparr>
      in s\<lparr>active_dma_rx_channel := (active_dma_rx_channel s)[dma_channel (rx s) := False]\<rparr>)"

definition tx_stream_disable :: "kconfig \<Rightarrow> dev \<Rightarrow> dev" where
  "tx_stream_disable k s =
     (let s = s\<lparr>i2s := LL_I2S_DisableIT_errors k
                 ((LL_SPI_SuspendMasterTransfer k (i2s s))\<lparr>DMAReq_TX := False\<rparr>)\<rparr>;
          s = s\<lparr>tx_dma := dma_stop (tx_dma s)\<rparr>;
          s = (if mem_block (tx s) \<noteq> NULL
               then s\<lparr>slabs := k_mem_slab_free (mem_slab (cfg (tx s))) (mem_block (tx s)) (slabs s),
                      tx := (tx s)\<lparr>mem_block := NULL\<rparr>\<rparr>
               else s);
          s = (if CONFIG_I2S_STM32_TX_UNDERRUN_LAST_REPEAT k
               then s\<lparr>slabs := k_mem_slab_free (mem_slab (cfg (tx s))) (last_mem_block (tx s)) (slabs s)\<rparr>
               else s);
          s = s\<lparr>i2s := (i2s s)\<lparr>Enabled := False\<rparr>\<rparr>
      in s\<lparr>active_dma_tx_channel := (active_dma_tx_channel s)[dma_channel (tx s) := False]\<rparr>)"

definition full_duplex_stream_disable :: "kconfig \<Rightarrow> dev \<Rightarrow> dev" where
  "full_duplex_stream_disable k s =
     (let s = s\<lparr>i2s := LL_I2S_DisableIT_errors k
                 ((LL_SPI_SuspendMasterTransfer k (i2s s))\<lparr>DMAReq_RX := False, DMAReq_TX := False\<rparr>)\<rparr>;
          s = s\<lparr>rx_dma := dma_stop (rx_dma s)\<rparr>;
          s = (if mem_block (rx s) \<noteq> NULL
               then s\<lparr>slabs := k_mem_slab_free (mem_slab (cfg (rx s))) (mem_block (rx s)) (slabs s),
                      rx := (rx s)\<lparr>mem_block := NULL\<rparr>\<rparr>
               else s);
          s = s\<lparr>tx_dma := dma_stop (tx_dma s)\<rparr>;
          s = (if mem_block (tx s) \<noteq> NULL
               then s\<lparr>slabs := k_mem_slab_free (mem_slab (cfg (tx s))) (mem_block (tx s)) (slabs s),
                      tx := (tx s)\<lparr>mem_block := NULL\<rparr>\<rparr>
               else s);
          s = (if CONFIG_I2S_STM32_TX_UNDERRUN_LAST_REPEAT k
               then s\<lparr>slabs := k_mem_slab_free (mem_slab (cfg (tx s))) (last_mem_block (tx s)) (slabs s)\<rparr>
               else s);
          s = s\<lparr>i2s := (i2s s)\<lparr>Enabled := False\<rparr>\<rparr>
      in s\<lparr>active_dma_rx_channel := (active_dma_rx_channel s)[dma_channel (rx s) := False],
           active_dma_tx_channel := (active_dma_tx_channel s)[dma_channel (tx s) := False]\<rparr>)"

text \<open>
  The code at the labels \<open>rx_disable\<close> and \<open>tx_disable\<close> of the two DMA callbacks. With
  full-duplex support compiled in and the peripheral in a full-duplex transfer mode,
  the other stream is marked as failed and both are disabled.
\<close>

definition rx_disable :: "kconfig \<Rightarrow> dev \<Rightarrow> dev" where
  "rx_disable k s =
     (if CONFIG_I2S_STM32_FULL_DUPLEX k then
        (if full_duplex_mode s
         then full_duplex_stream_disable k (s\<lparr>tx := (tx s)\<lparr>state := I2S_STATE_ERROR\<rparr>\<rparr>)
         else rx_stream_disable k s)
      else rx_stream_disable k s)"

definition tx_disable :: "kconfig \<Rightarrow> dev \<Rightarrow> dev" where
  "tx_disable k s =
     (if CONFIG_I2S_STM32_FULL_DUPLEX k then
        (if full_duplex_mode s
         then full_duplex_stream_disable k (s\<lparr>rx := (rx s)\<lparr>state := I2S_STATE_ERROR\<rparr>\<rparr>)
         else tx_stream_disable k s)
      else tx_stream_disable k s)"

subsection \<open>The DMA completion callbacks and the error interrupt\<close>

text \<open>
  The callbacks run for the device that the channel table names; the model has the one
  device. The assertion that a block is in flight is compiled out in production
  builds and is not a branch of the model.
\<close>

definition dma_rx_callback :: "kconfig \<Rightarrow> i2s_stm32_cfg \<Rightarrow> ext \<Rightarrow> int \<Rightarrow> dev \<Rightarrow> dev" where
  "dma_rx_callback k c x status s =
     (if status \<noteq> 0 then rx_disable k (s\<lparr>rx := (rx s)\<lparr>state := I2S_STATE_ERROR\<rparr>\<rparr>)
      else if state (rx s) = I2S_STATE_ERROR then rx_disable k s
      else
        let mblk_tmp = mem_block (rx s) in
        case k_mem_slab_alloc (mem_slab (cfg (rx s))) (slabs s) of (ret, blk, sl) \<Rightarrow>
        let s = s\<lparr>rx := (rx s)\<lparr>mem_block := blk\<rparr>, slabs := sl\<rparr> in
        if ret < 0 then rx_disable k (s\<lparr>rx := (rx s)\<lparr>state := I2S_STATE_ERROR\<rparr>\<rparr>)
        else
          case reload_dma (rx_dma_reload_ret x) (rx_dma_start_ret x) (rx_data_reg k c)
                 (mem_block (rx s)) (block_size (cfg (rx s))) (rx_dma s) of (ret, ch) \<Rightarrow>
          let s = s\<lparr>rx_dma := ch\<rparr> in
          if ret < 0 then rx_disable k s
          else
            let (ret, s) =
                  (case queue_put (mem_block_queue (rx s)) mblk_tmp (block_size (cfg (rx s))) of
                     Inl e \<Rightarrow> (e, s)
                   | Inr rb' \<Rightarrow> (0, s\<lparr>rx := (rx s)\<lparr>mem_block_queue := rb'\<rparr>\<rparr>));
                (ret, rx_overrun, s) =
                  (if CONFIG_I2S_STM32_RX_OVERRUN_DROP k \<and> ret = - ENOMEM
                   then (0, True,
                         s\<lparr>slabs := k_mem_slab_free (mem_slab (cfg (rx s))) mblk_tmp (slabs s)\<rparr>)
                   else (ret, False, s))
            in
            if ret < 0 then rx_disable k (s\<lparr>rx := (rx s)\<lparr>state := I2S_STATE_ERROR\<rparr>\<rparr>)
            else
              let s = (if CONFIG_I2S_STM32_RX_OVERRUN_DROP k
                       then (if rx_overrun = False
                             then s\<lparr>rx := (rx s)\<lparr>sem := k_sem_give (sem (rx s))\<rparr>\<rparr> else s)
                       else s\<lparr>rx := (rx s)\<lparr>sem := k_sem_give (sem (rx s))\<rparr>\<rparr>)
              in
              if state (rx s) = I2S_STATE_STOPPING
              then rx_disable k (s\<lparr>rx := (rx s)\<lparr>state := I2S_STATE_READY\<rparr>\<rparr>)
              else s)"

definition dma_tx_callback :: "kconfig \<Rightarrow> i2s_stm32_cfg \<Rightarrow> ext \<Rightarrow> int \<Rightarrow> dev \<Rightarrow> dev" where
  "dma_tx_callback k c x status s =
     (if status \<noteq> 0 then tx_disable k (s\<lparr>tx := (tx s)\<lparr>state := I2S_STATE_ERROR\<rparr>\<rparr>)
      else
        let s = (if CONFIG_I2S_STM32_TX_UNDERRUN_LAST_REPEAT k
                 then (if tx_underrun (tx s) = False
                       then s\<lparr>slabs := k_mem_slab_free (mem_slab (cfg (tx s)))
                                          (last_mem_block (tx s)) (slabs s),
                              tx := (tx s)\<lparr>last_mem_block := mem_block (tx s),
                                           last_mem_block_size := mem_block_size (tx s)\<rparr>\<rparr>
                       else s)
                 else s\<lparr>slabs := k_mem_slab_free (mem_slab (cfg (tx s)))
                                    (mem_block (tx s)) (slabs s)\<rparr>);
            s = s\<lparr>tx := (tx s)\<lparr>mem_block := NULL, mem_block_size := 0\<rparr>\<rparr>
        in
        if state (tx s) = I2S_STATE_ERROR then tx_disable k s
        else if last_block (tx s)
        then tx_disable k (s\<lparr>tx := (tx s)\<lparr>state := I2S_STATE_READY\<rparr>\<rparr>)
        else
          let (ret, s) =
                (case queue_get (mem_block_queue (tx s)) of
                   Inl e \<Rightarrow> (e, s)
                 | Inr ((b, sz), rb') \<Rightarrow>
                     (0, s\<lparr>tx := (tx s)\<lparr>mem_block := b, mem_block_size := sz,
                                          mem_block_queue := rb'\<rparr>\<rparr>));
              (ret, s) =
                (if CONFIG_I2S_STM32_TX_UNDERRUN_LAST_REPEAT k
                 then (if ret = - ENOMEM
                       then (0, s\<lparr>tx := (tx s)\<lparr>mem_block := last_mem_block (tx s),
                                                 mem_block_size := last_mem_block_size (tx s),
                                                 tx_underrun := True\<rparr>\<rparr>)
                       else if ret = 0
                       then (ret, s\<lparr>tx := (tx s)\<lparr>tx_underrun := False\<rparr>\<rparr>)
                       else (ret, s))
                 else (ret, s))
          in
          if ret < 0 then
            (if state (tx s) = I2S_STATE_STOPPING
             then tx_disable k (s\<lparr>tx := (tx s)\<lparr>state := I2S_STATE_READY\<rparr>\<rparr>)
             else tx_disable k (s\<lparr>tx := (tx s)\<lparr>state := I2S_STATE_ERROR\<rparr>\<rparr>))
          else
            let s = (if CONFIG_I2S_STM32_TX_UNDERRUN_LAST_REPEAT k
                     then (if tx_underrun (tx s) = False
                           then s\<lparr>tx := (tx s)\<lparr>sem := k_sem_give (sem (tx s))\<rparr>\<rparr> else s)
                     else s\<lparr>tx := (tx s)\<lparr>sem := k_sem_give (sem (tx s))\<rparr>\<rparr>)
            in
            case reload_dma (tx_dma_reload_ret x) (tx_dma_start_ret x) (mem_block (tx s))
                   (tx_data_reg k c) (block_size (cfg (tx s))) (tx_dma s) of (ret, ch) \<Rightarrow>
            let s = s\<lparr>tx_dma := ch\<rparr> in
            if ret < 0 then tx_disable k s else s)"

definition i2s_stm32_isr :: "kconfig \<Rightarrow> dev \<Rightarrow> dev" where
  "i2s_stm32_isr k s =
     (let s = s\<lparr>rx := (rx s)\<lparr>state := I2S_STATE_ERROR\<rparr>\<rparr>;
          s = (if CONFIG_I2S_STM32_FULL_DUPLEX k \<and> full_duplex_mode s
               then s\<lparr>tx := (tx s)\<lparr>state := I2S_STATE_ERROR\<rparr>\<rparr> else s);
          s = (if ActiveFlag_OVR (i2s s)
               then s\<lparr>i2s_stm32_irq_ovr_count := i2s_stm32_irq_ovr_count s + 1,
                      i2s := (i2s s)\<lparr>ActiveFlag_OVR := False\<rparr>\<rparr>
               else s);
          s = (if CONFIG_SOC_SERIES_STM32H7X k \<and> ActiveFlag_UDR (i2s s)
               then s\<lparr>i2s_stm32_irq_udr_count := i2s_stm32_irq_udr_count s + 1,
                      i2s := (i2s s)\<lparr>ActiveFlag_UDR := False\<rparr>\<rparr>
               else s);
          s = (if CONFIG_SOC_SERIES_STM32H7X k \<and> ActiveFlag_FRE (i2s s)
               then s\<lparr>i2s_stm32_irq_fre_count := i2s_stm32_irq_fre_count s + 1,
                      i2s := (i2s s)\<lparr>ActiveFlag_FRE := False\<rparr>\<rparr>
               else s)
      in s\<lparr>i2s_stm32_irq_count := i2s_stm32_irq_count s + 1\<rparr>)"

subsection \<open>Starting a stream\<close>

definition rx_stream_start_dma :: "kconfig \<Rightarrow> i2s_stm32_cfg \<Rightarrow> ext \<Rightarrow> bool \<Rightarrow> dev \<Rightarrow> int \<times> dev" where
  "rx_stream_start_dma k c x full_duplex s =
     (case k_mem_slab_alloc (mem_slab (cfg (rx s))) (slabs s) of (ret, blk, sl) \<Rightarrow>
      let s = s\<lparr>rx := (rx s)\<lparr>mem_block := blk\<rparr>, slabs := sl\<rparr> in
      if ret < 0 then (ret, s)
      else
        let s = s\<lparr>i2s := (i2s s)\<lparr>TransferMode :=
                      (if master (rx s)
                       then (if full_duplex then LL_I2S_MODE_MASTER_FULL_DUPLEX
                             else LL_I2S_MODE_MASTER_RX)
                       else (if full_duplex then LL_I2S_MODE_SLAVE_FULL_DUPLEX
                             else LL_I2S_MODE_SLAVE_RX))\<rparr>\<rparr>;
            s = s\<lparr>active_dma_rx_channel := (active_dma_rx_channel s)[dma_channel (rx s) := True]\<rparr>
        in
        case start_dma (rx_dma_config_ret x) (rx_dma_start_ret x) (rx_data_reg k c)
               (src_addr_increment (rx s)) (mem_block (rx s)) (dst_addr_increment (rx s))
               (fifo_threshold (rx s)) (block_size (cfg (rx s))) (rx_dma s) of (ret, ch) \<Rightarrow>
        let s = s\<lparr>rx_dma := ch\<rparr> in
        if ret < 0 then (ret, s) else (0, s))"

text \<open>
  With the repeat-last-block policy the start routine first allocates the block that
  is sent on underrun; \<open>memset\<close> zeroes its contents, which the model does not hold.
\<close>

definition tx_stream_start_dma :: "kconfig \<Rightarrow> i2s_stm32_cfg \<Rightarrow> ext \<Rightarrow> bool \<Rightarrow> dev \<Rightarrow> int \<times> dev" where
  "tx_stream_start_dma k c x full_duplex s =
     (let (ret0, s) =
            (if CONFIG_I2S_STM32_TX_UNDERRUN_LAST_REPEAT k
             then (case k_mem_slab_alloc (mem_slab (cfg (tx s))) (slabs s) of (ret, blk, sl) \<Rightarrow>
                     let s = s\<lparr>tx := (tx s)\<lparr>last_mem_block := blk\<rparr>, slabs := sl\<rparr> in
                     if ret \<noteq> 0 then (- ENOMEM, s)
                     else (0, s\<lparr>tx := (tx s)\<lparr>last_mem_block_size := block_size (cfg (tx s)),
                                               tx_underrun := False\<rparr>\<rparr>))
             else (0, s))
      in
      if ret0 \<noteq> 0 then (ret0, s)
      else
        let (ret, s) =
              (case queue_get (mem_block_queue (tx s)) of
                 Inl e \<Rightarrow> (e, s)
               | Inr ((b, sz), rb') \<Rightarrow>
                   (0, s\<lparr>tx := (tx s)\<lparr>mem_block := b, mem_block_size := sz,
                                        mem_block_queue := rb'\<rparr>\<rparr>));
            (ret, s) =
              (if CONFIG_I2S_STM32_TX_UNDERRUN_LAST_REPEAT k \<and> ret = - ENOMEM
               then (0, s\<lparr>tx := (tx s)\<lparr>mem_block := last_mem_block (tx s),
                                         mem_block_size := last_mem_block_size (tx s),
                                         tx_underrun := True\<rparr>\<rparr>)
               else (ret, s))
        in
        if ret < 0 then (ret, s)
        else
          let s = (if CONFIG_I2S_STM32_TX_UNDERRUN_LAST_REPEAT k
                   then (if tx_underrun (tx s) = False
                         then s\<lparr>tx := (tx s)\<lparr>sem := k_sem_give (sem (tx s))\<rparr>\<rparr> else s)
                   else s\<lparr>tx := (tx s)\<lparr>sem := k_sem_give (sem (tx s))\<rparr>\<rparr>);
              s = s\<lparr>i2s := (i2s s)\<lparr>TransferMode :=
                        (if master (tx s)
                         then (if full_duplex then LL_I2S_MODE_MASTER_FULL_DUPLEX
                               else LL_I2S_MODE_MASTER_TX)
                         else (if full_duplex then LL_I2S_MODE_SLAVE_FULL_DUPLEX
                               else LL_I2S_MODE_SLAVE_TX))\<rparr>\<rparr>;
              s = s\<lparr>active_dma_tx_channel := (active_dma_tx_channel s)[dma_channel (tx s) := True]\<rparr>
          in
          case start_dma (tx_dma_config_ret x) (tx_dma_start_ret x) (mem_block (tx s))
                 (src_addr_increment (tx s)) (tx_data_reg k c) (dst_addr_increment (tx s))
                 (fifo_threshold (tx s)) (block_size (cfg (tx s))) (tx_dma s) of (ret, ch) \<Rightarrow>
          let s = s\<lparr>tx_dma := ch\<rparr> in
          if ret < 0 then (ret, s) else (0, s))"

definition rx_stream_start :: "kconfig \<Rightarrow> i2s_stm32_cfg \<Rightarrow> ext \<Rightarrow> dev \<Rightarrow> int \<times> dev" where
  "rx_stream_start k c x s =
     (case rx_stream_start_dma k c x False s of (ret, s) \<Rightarrow>
        if ret < 0 then (ret, s)
        else (0, s\<lparr>i2s := LL_SPI_StartMasterTransfer k
                      ((LL_I2S_EnableIT_errors k ((i2s s)\<lparr>DMAReq_RX := True\<rparr>))\<lparr>Enabled := True\<rparr>)\<rparr>))"

definition tx_stream_start :: "kconfig \<Rightarrow> i2s_stm32_cfg \<Rightarrow> ext \<Rightarrow> dev \<Rightarrow> int \<times> dev" where
  "tx_stream_start k c x s =
     (case tx_stream_start_dma k c x False s of (ret, s) \<Rightarrow>
        if ret < 0 then (ret, s)
        else (0, s\<lparr>i2s := LL_SPI_StartMasterTransfer k
                      ((LL_I2S_EnableIT_errors k ((i2s s)\<lparr>DMAReq_TX := True\<rparr>))\<lparr>Enabled := True\<rparr>)\<rparr>))"

definition full_duplex_stream_start :: "kconfig \<Rightarrow> i2s_stm32_cfg \<Rightarrow> ext \<Rightarrow> dev \<Rightarrow> int \<times> dev" where
  "full_duplex_stream_start k c x s =
     (case rx_stream_start_dma k c x True s of (ret, s) \<Rightarrow>
        if ret < 0 then (ret, s)
        else
          case tx_stream_start_dma k c x True s of (ret, s) \<Rightarrow>
            if ret < 0 then (ret, s)
            else (0, s\<lparr>i2s := LL_SPI_StartMasterTransfer k
                          ((LL_I2S_EnableIT_errors k
                              ((i2s s)\<lparr>DMAReq_RX := True, DMAReq_TX := True\<rparr>))\<lparr>Enabled := True\<rparr>)\<rparr>))"

subsection \<open>Dropping the queued blocks\<close>

text \<open>
  The loops \<open>while (queue_get(...) == 0) { k_mem_slab_free(...); }\<close>. They end when the
  queue is well-formed; on arbitrary indices they need not, so they are partial
  functions and every routine that calls them returns an option, \<open>None\<close> for a call
  that does not return.
\<close>

partial_function (option) rx_queue_drop_loop :: "dev \<Rightarrow> dev option" where
  "rx_queue_drop_loop s =
     (case queue_get (mem_block_queue (rx s)) of
        Inl e \<Rightarrow> Some s
      | Inr ((b, sz), rb') \<Rightarrow>
          rx_queue_drop_loop
            (s\<lparr>rx := (rx s)\<lparr>mem_block_queue := rb'\<rparr>,
               slabs := k_mem_slab_free (mem_slab (cfg (rx s))) b (slabs s)\<rparr>))"

definition rx_queue_drop :: "dev \<Rightarrow> dev option" where
  "rx_queue_drop s =
     (case rx_queue_drop_loop s of
        None \<Rightarrow> None
      | Some s \<Rightarrow> Some (s\<lparr>rx := (rx s)\<lparr>sem := k_sem_reset (sem (rx s))\<rparr>\<rparr>))"

partial_function (option) tx_queue_drop_loop :: "32 word \<times> dev \<Rightarrow> (32 word \<times> dev) option" where
  "tx_queue_drop_loop ns =
     (case queue_get (mem_block_queue (tx (snd ns))) of
        Inl e \<Rightarrow> Some ns
      | Inr ((b, sz), rb') \<Rightarrow>
          tx_queue_drop_loop
            (fst ns + 1,
             (snd ns)\<lparr>tx := (tx (snd ns))\<lparr>mem_block_queue := rb'\<rparr>,
                      slabs := k_mem_slab_free (mem_slab (cfg (tx (snd ns)))) b (slabs (snd ns))\<rparr>))"

text \<open>\<open>for (; n > 0; n--) { k_sem_give(&stream->sem); }\<close>\<close>

fun k_sem_give_n :: "nat \<Rightarrow> k_sem \<Rightarrow> k_sem" where
  "k_sem_give_n 0 sm = sm"
| "k_sem_give_n (Suc n) sm = k_sem_give_n n (k_sem_give sm)"

definition tx_queue_drop :: "kconfig \<Rightarrow> dev \<Rightarrow> dev option" where
  "tx_queue_drop k s =
     (case tx_queue_drop_loop (0, s) of
        None \<Rightarrow> None
      | Some (n, s) \<Rightarrow>
          let s = (if CONFIG_I2S_STM32_TX_UNDERRUN_LAST_REPEAT k
                   then s\<lparr>slabs := k_mem_slab_free (mem_slab (cfg (tx s)))
                                      (last_mem_block (tx s)) (slabs s)\<rparr>
                   else s)
          in Some (s\<lparr>tx := (tx s)\<lparr>sem := k_sem_give_n (unat n) (sem (tx s))\<rparr>\<rparr>))"

definition full_duplex_queue_drop :: "kconfig \<Rightarrow> dev \<Rightarrow> dev option" where
  "full_duplex_queue_drop k s =
     (case rx_queue_drop s of None \<Rightarrow> None | Some s \<Rightarrow> tx_queue_drop k s)"

subsection \<open>Calls through a stream's function pointers\<close>

definition stream_start :: "kconfig \<Rightarrow> i2s_stm32_cfg \<Rightarrow> ext \<Rightarrow> stream_sel \<Rightarrow> dev \<Rightarrow> int \<times> dev" where
  "stream_start k c x sel s =
     (case sel of Rx \<Rightarrow> rx_stream_start k c x s | Tx \<Rightarrow> tx_stream_start k c x s)"

definition stream_disable :: "kconfig \<Rightarrow> stream_sel \<Rightarrow> dev \<Rightarrow> dev" where
  "stream_disable k sel s =
     (case sel of Rx \<Rightarrow> rx_stream_disable k s | Tx \<Rightarrow> tx_stream_disable k s)"

definition queue_drop :: "kconfig \<Rightarrow> stream_sel \<Rightarrow> dev \<Rightarrow> dev option" where
  "queue_drop k sel s = (case sel of Rx \<Rightarrow> rx_queue_drop s | Tx \<Rightarrow> tx_queue_drop k s)"

subsection \<open>Configuration\<close>

text \<open>
  The unsigned division of C has no defined result for a zero divisor, and the
  processor may trap there. The model has no result in that case either: \<open>None\<close>,
  which every caller passes on, so that \<open>None\<close> from the configuration routines
  stands for a call that does not return normally.
\<close>

definition div_round_closest :: "32 word \<Rightarrow> 32 word \<Rightarrow> 32 word option" where
  "div_round_closest dividend divisor =
     (if divisor = 0 then None else Some ((dividend + (divisor div 2)) div divisor))"

text \<open>
  \<open>i2s_stm32_set_clock\<close>. The input clock it starts from (the oscillator constants,
  the PLL factors and the wait for the PLL to lock, the clock query of the vendor
  library) comes from headers and hardware outside the driver source: whether the PLL
  locks, and the input frequency after all adjustments, are taken from \<open>ext\<close>. The
  clock source selection and the divider computation follow the source.
\<close>

definition i2s_stm32_set_clock :: "kconfig \<Rightarrow> i2s_stm32_cfg \<Rightarrow> ext \<Rightarrow> 32 word \<Rightarrow> i2s_regs
    \<Rightarrow> (int \<times> i2s_regs) option" where
  "i2s_stm32_set_clock k c x bit_clk_freq r =
     (if CONFIG_I2S_STM32_USE_PLLI2S_ENABLE k \<and> \<not> plli2s_locks x then Some (- EIO, r)
      else
        let r = r\<lparr>ClockSource := i2s_clk_sel c\<rparr> in
        case div_round_closest (freq_in x) bit_clk_freq of
          None \<Rightarrow> None
        | Some d \<Rightarrow>
            let i2s_div = (ucast d :: 8 word);
                i2s_odd = (if i2s_div AND 1 \<noteq> 0 then 1 else 0);
                i2s_div = drop_bit 1 i2s_div
            in Some (0, r\<lparr>PrescalerLinear := i2s_div, PrescalerParity := i2s_odd\<rparr>))"

definition i2s_stm32_configure_stream :: "kconfig \<Rightarrow> i2s_h \<Rightarrow> stream_sel \<Rightarrow> i2s_config \<Rightarrow> dev
    \<Rightarrow> (int \<times> dev) option" where
  "i2s_stm32_configure_stream k h sel i2s_cfg s =
     (if state (strm sel s) \<noteq> I2S_STATE_NOT_READY \<and> state (strm sel s) \<noteq> I2S_STATE_READY
      then Some (- EINVAL, s)
      else
        let s = strm_set sel ((strm sel s)\<lparr>master := True\<rparr>) s;
            s = (if options i2s_cfg AND I2S_OPT_FRAME_CLK_SLAVE h \<noteq> 0
                    \<or> options i2s_cfg AND I2S_OPT_BIT_CLK_SLAVE h \<noteq> 0
                 then strm_set sel ((strm sel s)\<lparr>master := False\<rparr>) s else s)
        in
        if frame_clk_freq i2s_cfg = 0 then
          (case queue_drop k sel s of
             None \<Rightarrow> None
           | Some s \<Rightarrow>
               Some (0, strm_set sel ((strm sel s)\<lparr>cfg := zero_i2s_config,
                                                    state := I2S_STATE_NOT_READY\<rparr>) s))
        else
          Some (0, strm_set sel ((strm sel s)\<lparr>cfg := i2s_cfg, tx_underrun := False,
                                               last_mem_block := NULL,
                                               last_mem_block_size := 0,
                                               mem_block_size := 0\<rparr>) s))"

text \<open>
  The part of \<open>i2s_stm32_configure\<close> after the streams have taken the configuration:
  the clock, the peripheral's format registers, and at the very end the stream states.
\<close>

definition i2s_stm32_configure_periph :: "kconfig \<Rightarrow> i2s_h \<Rightarrow> i2s_stm32_cfg \<Rightarrow> ext \<Rightarrow> i2s_dir
    \<Rightarrow> i2s_config \<Rightarrow> dev \<Rightarrow> (int \<times> dev) option" where
  "i2s_stm32_configure_periph k h c x dir i2s_cfg s =
     (let bit_clk_freq = frame_clk_freq i2s_cfg * ucast (word_size i2s_cfg)
                           * ucast (channels i2s_cfg) in
      case i2s_stm32_set_clock k c x bit_clk_freq (i2s s) of
        None \<Rightarrow> None
      | Some (ret, r) \<Rightarrow>
      let s = s\<lparr>i2s := r\<rparr> in
      if ret < 0 then Some (ret, s)
      else
        let s = s\<lparr>i2s := (i2s s)\<lparr>MasterClock :=
                      (options i2s_cfg AND I2S_OPT_FRAME_CLK_SLAVE h \<noteq> 0
                       \<or> options i2s_cfg AND I2S_OPT_BIT_CLK_SLAVE h \<noteq> 0)\<rparr>\<rparr>;
            s = (if options i2s_cfg AND I2S_OPT_IO_SWAP h \<noteq> 0
                 then s\<lparr>i2s := (i2s s)\<lparr>IOSwap := True\<rparr>\<rparr> else s)
        in
        if word_size i2s_cfg \<noteq> 16 \<and> word_size i2s_cfg \<noteq> 24 \<and> word_size i2s_cfg \<noteq> 32
        then Some (- EINVAL, s)
        else
          let s = s\<lparr>i2s := (i2s s)\<lparr>DataFormat :=
                        (if word_size i2s_cfg = 16 then LL_I2S_DATAFORMAT_16B
                         else if word_size i2s_cfg = 24 then LL_I2S_DATAFORMAT_24B
                         else LL_I2S_DATAFORMAT_32B)\<rparr>\<rparr>;
              fmt = format i2s_cfg AND I2S_FMT_DATA_FORMAT_MASK h
          in
          if fmt \<noteq> I2S_FMT_DATA_FORMAT_I2S h \<and> fmt \<noteq> I2S_FMT_DATA_FORMAT_PCM_SHORT h
             \<and> fmt \<noteq> I2S_FMT_DATA_FORMAT_PCM_LONG h
             \<and> fmt \<noteq> I2S_FMT_DATA_FORMAT_LEFT_JUSTIFIED h
             \<and> fmt \<noteq> I2S_FMT_DATA_FORMAT_RIGHT_JUSTIFIED h
          then Some (- EINVAL, s)
          else
            let s = s\<lparr>i2s := (i2s s)\<lparr>Standard :=
                          (if fmt = I2S_FMT_DATA_FORMAT_I2S h then LL_I2S_STANDARD_PHILIPS
                           else if fmt = I2S_FMT_DATA_FORMAT_PCM_SHORT h
                           then LL_I2S_STANDARD_PCM_SHORT
                           else if fmt = I2S_FMT_DATA_FORMAT_PCM_LONG h
                           then LL_I2S_STANDARD_PCM_LONG
                           else if fmt = I2S_FMT_DATA_FORMAT_LEFT_JUSTIFIED h
                           then LL_I2S_STANDARD_MSB
                           else LL_I2S_STANDARD_LSB)\<rparr>\<rparr>;
                s = s\<lparr>i2s := (i2s s)\<lparr>ClockPolarity :=
                          (if format i2s_cfg AND I2S_FMT_CLK_FORMAT_MASK h = I2S_FMT_BIT_CLK_INV h
                           then LL_I2S_POLARITY_HIGH else LL_I2S_POLARITY_LOW)\<rparr>\<rparr>;
                s = (if dir = I2S_DIR_RX \<or> dir = I2S_DIR_BOTH
                     then s\<lparr>rx := (rx s)\<lparr>state := I2S_STATE_READY\<rparr>\<rparr> else s);
                s = (if dir = I2S_DIR_TX \<or> dir = I2S_DIR_BOTH
                     then s\<lparr>tx := (tx s)\<lparr>state := I2S_STATE_READY\<rparr>\<rparr> else s)
            in Some (0, s))"

definition i2s_stm32_configure :: "kconfig \<Rightarrow> i2s_h \<Rightarrow> i2s_stm32_cfg \<Rightarrow> ext \<Rightarrow> i2s_dir \<Rightarrow> i2s_config
    \<Rightarrow> dev \<Rightarrow> (int \<times> dev) option" where
  "i2s_stm32_configure k h c x dir i2s_cfg s =
     (case
        (case dir of
           I2S_DIR_RX \<Rightarrow> i2s_stm32_configure_stream k h Rx i2s_cfg s
         | I2S_DIR_TX \<Rightarrow> i2s_stm32_configure_stream k h Tx i2s_cfg s
         | I2S_DIR_BOTH \<Rightarrow>
             (if CONFIG_I2S_STM32_FULL_DUPLEX k then
                (case i2s_stm32_configure_stream k h Rx i2s_cfg s of
                   None \<Rightarrow> None
                 | Some (ret, s) \<Rightarrow>
                     if ret \<noteq> 0 then Some (ret, s)
                     else i2s_stm32_configure_stream k h Tx i2s_cfg s)
              else Some (- ENOSYS, s))
         | I2S_DIR_OTHER \<Rightarrow> Some (- EINVAL, s))
      of
        None \<Rightarrow> None
      | Some (ret, s) \<Rightarrow>
          if ret \<noteq> 0 then Some (ret, s)
          else i2s_stm32_configure_periph k h c x dir i2s_cfg s)"

subsection \<open>Triggers\<close>

definition i2s_stm32_trigger_half_duplex :: "kconfig \<Rightarrow> i2s_stm32_cfg \<Rightarrow> ext \<Rightarrow> stream_sel
    \<Rightarrow> i2s_trigger_cmd \<Rightarrow> dev \<Rightarrow> (int \<times> dev) option" where
  "i2s_stm32_trigger_half_duplex k c x sel cmd s =
     (case cmd of
        I2S_TRIGGER_START \<Rightarrow>
          if state (strm sel s) \<noteq> I2S_STATE_READY then Some (- EIO, s)
          else
            (case stream_start k c x sel s of (ret, s) \<Rightarrow>
               if ret < 0 then Some (ret, s)
               else Some (0, strm_set sel ((strm sel s)\<lparr>state := I2S_STATE_RUNNING,
                                                        last_block := False\<rparr>) s))
      | I2S_TRIGGER_STOP \<Rightarrow>
          if state (strm sel s) \<noteq> I2S_STATE_RUNNING then Some (- EIO, s)
          else
            (case queue_drop k sel (stream_disable k sel s) of
               None \<Rightarrow> None
             | Some s \<Rightarrow>
                 Some (0, strm_set sel ((strm sel s)\<lparr>state := I2S_STATE_READY,
                                                      last_block := True\<rparr>) s))
      | I2S_TRIGGER_DRAIN \<Rightarrow>
          if state (strm sel s) \<noteq> I2S_STATE_RUNNING then Some (- EIO, s)
          else
            (case queue_drop k sel (stream_disable k sel s) of
               None \<Rightarrow> None
             | Some s \<Rightarrow> Some (0, strm_set sel ((strm sel s)\<lparr>state := I2S_STATE_READY\<rparr>) s))
      | I2S_TRIGGER_DROP \<Rightarrow>
          if state (strm sel s) = I2S_STATE_NOT_READY then Some (- EIO, s)
          else
            (case queue_drop k sel (stream_disable k sel s) of
               None \<Rightarrow> None
             | Some s \<Rightarrow> Some (0, strm_set sel ((strm sel s)\<lparr>state := I2S_STATE_READY\<rparr>) s))
      | I2S_TRIGGER_PREPARE \<Rightarrow>
          if state (strm sel s) \<noteq> I2S_STATE_ERROR then Some (- EIO, s)
          else
            (case queue_drop k sel (strm_set sel ((strm sel s)\<lparr>state := I2S_STATE_READY\<rparr>) s) of
               None \<Rightarrow> None
             | Some s \<Rightarrow> Some (0, s))
      | I2S_TRIGGER_OTHER \<Rightarrow> Some (- EINVAL, s))"

text \<open>
  The full-duplex trigger tests both streams before it acts. Its STOP and DRAIN cases
  return from their state tests with interrupts still locked; interrupt masking is not
  part of the model, so those returns are plain error returns here.
\<close>

definition i2s_stm32_trigger_full_duplex :: "kconfig \<Rightarrow> i2s_stm32_cfg \<Rightarrow> ext \<Rightarrow> i2s_trigger_cmd
    \<Rightarrow> dev \<Rightarrow> (int \<times> dev) option" where
  "i2s_stm32_trigger_full_duplex k c x cmd s =
     (case cmd of
        I2S_TRIGGER_START \<Rightarrow>
          if state (rx s) \<noteq> I2S_STATE_READY then Some (- EIO, s)
          else if state (tx s) \<noteq> I2S_STATE_READY then Some (- EIO, s)
          else
            (case full_duplex_stream_start k c x s of (ret, s) \<Rightarrow>
               if ret < 0 then Some (ret, s)
               else Some (0, s\<lparr>rx := (rx s)\<lparr>state := I2S_STATE_RUNNING, last_block := False\<rparr>,
                               tx := (tx s)\<lparr>state := I2S_STATE_RUNNING, last_block := False\<rparr>\<rparr>))
      | I2S_TRIGGER_STOP \<Rightarrow>
          if state (rx s) \<noteq> I2S_STATE_RUNNING then Some (- EIO, s)
          else if state (tx s) \<noteq> I2S_STATE_RUNNING then Some (- EIO, s)
          else
            (case full_duplex_queue_drop k (full_duplex_stream_disable k s) of
               None \<Rightarrow> None
             | Some s \<Rightarrow>
                 Some (0, s\<lparr>rx := (rx s)\<lparr>state := I2S_STATE_READY, last_block := True\<rparr>,
                            tx := (tx s)\<lparr>state := I2S_STATE_READY, last_block := True\<rparr>\<rparr>))
      | I2S_TRIGGER_DRAIN \<Rightarrow>
          if state (rx s) \<noteq> I2S_STATE_RUNNING then Some (- EIO, s)
          else if state (tx s) \<noteq> I2S_STATE_RUNNING then Some (- EIO, s)
          else
            (case full_duplex_queue_drop k (full_duplex_stream_disable k s) of
               None \<Rightarrow> None
             | Some s \<Rightarrow>
                 Some (0, s\<lparr>rx := (rx s)\<lparr>state := I2S_STATE_READY\<rparr>,
                            tx := (tx s)\<lparr>state := I2S_STATE_READY\<rparr>\<rparr>))
      | I2S_TRIGGER_DROP \<Rightarrow>
          if state (rx s) \<noteq> I2S_STATE_NOT_READY then Some (- EIO, s)
          else if state (tx s) \<noteq> I2S_STATE_NOT_READY then Some (- EIO, s)
          else
            (case full_duplex_queue_drop k (full_duplex_stream_disable k s) of
               None \<Rightarrow> None
             | Some s \<Rightarrow>
                 Some (0, s\<lparr>rx := (rx s)\<lparr>state := I2S_STATE_READY\<rparr>,
                            tx := (tx s)\<lparr>state := I2S_STATE_READY\<rparr>\<rparr>))
      | I2S_TRIGGER_PREPARE \<Rightarrow>
          if state (rx s) \<noteq> I2S_STATE_ERROR then Some (- EIO, s)
          else if state (tx s) \<noteq> I2S_STATE_ERROR then Some (- EIO, s)
          else
            (case full_duplex_queue_drop k
                    (s\<lparr>rx := (rx s)\<lparr>state := I2S_STATE_READY\<rparr>,
                       tx := (tx s)\<lparr>state := I2S_STATE_READY\<rparr>\<rparr>) of
               None \<Rightarrow> None
             | Some s \<Rightarrow> Some (0, s))
      | I2S_TRIGGER_OTHER \<Rightarrow> Some (- EINVAL, s))"

definition i2s_stm32_trigger :: "kconfig \<Rightarrow> i2s_stm32_cfg \<Rightarrow> ext \<Rightarrow> i2s_dir \<Rightarrow> i2s_trigger_cmd
    \<Rightarrow> dev \<Rightarrow> (int \<times> dev) option" where
  "i2s_stm32_trigger k c x dir cmd s =
     (case dir of
        I2S_DIR_RX \<Rightarrow> i2s_stm32_trigger_half_duplex k c x Rx cmd s
      | I2S_DIR_TX \<Rightarrow> i2s_stm32_trigger_half_duplex k c x Tx cmd s
      | I2S_DIR_BOTH \<Rightarrow>
          (if CONFIG_I2S_STM32_FULL_DUPLEX k then i2s_stm32_trigger_full_duplex k c x cmd s
           else Some (- ENOSYS, s))
      | I2S_DIR_OTHER \<Rightarrow> Some (- EINVAL, s))"

subsection \<open>Reading and writing blocks\<close>

definition i2s_stm32_read :: "dev \<Rightarrow> int \<times> queue_item option \<times> dev" where
  "i2s_stm32_read s =
     (if state (rx s) = I2S_STATE_NOT_READY then (- EIO, None, s)
      else if state (rx s) = I2S_STATE_ERROR then (- EIO, None, s)
      else
        case k_sem_take (sem (rx s)) of (ret, sm) \<Rightarrow>
        let s = s\<lparr>rx := (rx s)\<lparr>sem := sm\<rparr>\<rparr> in
        if ret < 0 then (ret, None, s)
        else
          case queue_get (mem_block_queue (rx s)) of
            Inl e \<Rightarrow> (e, None, s)
          | Inr (it, rb') \<Rightarrow> (0, Some it, s\<lparr>rx := (rx s)\<lparr>mem_block_queue := rb'\<rparr>\<rparr>))"

definition i2s_stm32_write :: "ptr \<Rightarrow> size_t \<Rightarrow> dev \<Rightarrow> int \<times> dev" where
  "i2s_stm32_write b sz s =
     (if state (tx s) \<noteq> I2S_STATE_RUNNING \<and> state (tx s) \<noteq> I2S_STATE_READY then (- EIO, s)
      else
        case k_sem_take (sem (tx s)) of (ret, sm) \<Rightarrow>
        let s = s\<lparr>tx := (tx s)\<lparr>sem := sm\<rparr>\<rparr> in
        if ret < 0 then (ret, s)
        else
          case queue_put (mem_block_queue (tx s)) b sz of
            Inl e \<Rightarrow> (e, s)
          | Inr rb' \<Rightarrow> (0, s\<lparr>tx := (tx s)\<lparr>mem_block_queue := rb'\<rparr>\<rparr>))"

subsection \<open>Observations used in the statements\<close>

text \<open>
  A stream is disabled when its hardware is off: no block is in flight, the peripheral
  is disabled, and the stream's DMA channel is stopped with its DMA request line off.
  It is idle when, in addition, \<open>queue_get\<close> finds nothing in its queue.
\<close>

definition stream_disabled :: "stream_sel \<Rightarrow> dev \<Rightarrow> bool" where
  "stream_disabled sel s \<longleftrightarrow>
     mem_block (strm sel s) = NULL
     \<and> Enabled (i2s s) = False
     \<and> (case sel of
          Rx \<Rightarrow> dma_running (rx_dma s) = False \<and> DMAReq_RX (i2s s) = False
        | Tx \<Rightarrow> dma_running (tx_dma s) = False \<and> DMAReq_TX (i2s s) = False)"

definition stream_idle :: "stream_sel \<Rightarrow> dev \<Rightarrow> bool" where
  "stream_idle sel s \<longleftrightarrow>
     stream_disabled sel s \<and> queue_get (mem_block_queue (strm sel s)) = Inl (- ENOMEM)"

text \<open>
  A run of TX completions, each with DMA status 0 and its own answers from the DMA
  driver: the TX callback invoked once per element of the list.
\<close>

fun tx_completions :: "kconfig \<Rightarrow> i2s_stm32_cfg \<Rightarrow> ext list \<Rightarrow> dev \<Rightarrow> dev" where
  "tx_completions k c [] s = s"
| "tx_completions k c (x # xs) s = tx_completions k c xs (dma_tx_callback k c x 0 s)"

subsection \<open>A device instance\<close>

text \<open>
  The device as the static initialiser of \<open>I2S_INIT\<close> and \<open>i2s_stm32_initialize\<close> leave
  it: both streams zero-initialised (state \<open>I2S_STATE_NOT_READY\<close>), each ring buffer an
  array of \<open>BLOCK_COUNT + 1\<close> items with \<open>len\<close> the array size, the RX semaphore at 0 and
  the TX semaphore at \<open>TX_BLOCK_COUNT\<close>, both channel tables cleared. The devicetree
  values (DMA channel numbers, address increments, FIFO threshold) and the reset state
  of the peripheral are those of an example board.
\<close>

definition ring_buf_init :: "nat \<Rightarrow> ring_buf" where
  "ring_buf_init block_count =
     \<lparr>buf = replicate (Suc block_count) (NULL, 0), len = of_nat (Suc block_count),
      head = 0, tail = 0\<rparr>"

definition stream_init :: "nat \<Rightarrow> bool \<Rightarrow> bool \<Rightarrow> nat \<Rightarrow> nat \<Rightarrow> stream" where
  "stream_init channel src_inc dst_inc initial_count block_count =
     \<lparr>state = I2S_STATE_NOT_READY,
      sem = \<lparr>sem_count = initial_count, sem_limit = block_count\<rparr>,
      dma_channel = channel, src_addr_increment = src_inc, dst_addr_increment = dst_inc,
      fifo_threshold = 0, cfg = zero_i2s_config,
      mem_block_queue = ring_buf_init block_count,
      mem_block = NULL, mem_block_size = 0, last_block = False, master = False,
      last_mem_block = NULL, last_mem_block_size = 0, tx_underrun = False\<rparr>"

definition i2s_regs_reset :: i2s_regs where
  "i2s_regs_reset =
     \<lparr>TransferMode = LL_I2S_MODE_SLAVE_TX, Enabled = False, DMAReq_RX = False,
      DMAReq_TX = False, IT_ERR = False, IT_FRE = False, IT_OVR = False, IT_UDR = False,
      MasterTransfer = False, ActiveFlag_OVR = False, ActiveFlag_UDR = False,
      ActiveFlag_FRE = False, MasterClock = False, IOSwap = False,
      DataFormat = LL_I2S_DATAFORMAT_16B, Standard = LL_I2S_STANDARD_PHILIPS,
      ClockPolarity = LL_I2S_POLARITY_LOW, ClockSource = 0, PrescalerLinear = 0,
      PrescalerParity = 0\<rparr>"

definition dma_chan_reset :: dma_chan where
  "dma_chan_reset =
     \<lparr>dma_running = False, dma_source_address = NULL, dma_dest_address = NULL,
      dma_block_size = 0, dma_source_addr_inc = False, dma_dest_addr_inc = False,
      dma_fifo_mode_control = 0\<rparr>"

definition i2s_stm32_data_init :: "nat \<Rightarrow> nat \<Rightarrow> slab_store \<Rightarrow> dev" where
  "i2s_stm32_data_init rx_block_count tx_block_count pools =
     \<lparr>rx = stream_init 3 False True 0 rx_block_count,
      tx = stream_init 4 True False tx_block_count tx_block_count,
      i2s = i2s_regs_reset, rx_dma = dma_chan_reset, tx_dma = dma_chan_reset,
      slabs = pools,
      active_dma_rx_channel = replicate 8 False,
      active_dma_tx_channel = replicate 8 False,
      i2s_stm32_irq_count = 0, i2s_stm32_irq_ovr_count = 0,
      i2s_stm32_irq_udr_count = 0, i2s_stm32_irq_fre_count = 0\<rparr>"

text \<open>
  Example parameters: a build with a given choice of the three policies, the values of
  the I2S API constants, the register addresses of the example board, and an outside
  world in which every DMA call succeeds.
\<close>

definition kconfig_of :: "bool \<Rightarrow> bool \<Rightarrow> bool \<Rightarrow> kconfig" where
  "kconfig_of full_duplex rx_drop tx_repeat =
     \<lparr>CONFIG_I2S_STM32_FULL_DUPLEX = full_duplex,
      CONFIG_I2S_STM32_RX_OVERRUN_DROP = rx_drop,
      CONFIG_I2S_STM32_TX_UNDERRUN_LAST_REPEAT = tx_repeat,
      CONFIG_SOC_SERIES_STM32H7X = False,
      CONFIG_I2S_STM32_USE_PLLI2S_ENABLE = False\<rparr>"

definition i2s_h_values :: i2s_h where
  "i2s_h_values =
     \<lparr>I2S_OPT_FRAME_CLK_SLAVE = 4, I2S_OPT_BIT_CLK_SLAVE = 2, I2S_OPT_IO_SWAP = 32,
      I2S_FMT_DATA_FORMAT_MASK = 7, I2S_FMT_DATA_FORMAT_I2S = 0,
      I2S_FMT_DATA_FORMAT_PCM_SHORT = 1, I2S_FMT_DATA_FORMAT_PCM_LONG = 2,
      I2S_FMT_DATA_FORMAT_LEFT_JUSTIFIED = 3, I2S_FMT_DATA_FORMAT_RIGHT_JUSTIFIED = 4,
      I2S_FMT_CLK_FORMAT_MASK = 48, I2S_FMT_BIT_CLK_INV = 16\<rparr>"

definition board_cfg :: i2s_stm32_cfg where
  "board_cfg = \<lparr>i2s_DR = 1000, i2s_RXDR = 1001, i2s_TXDR = 1002, i2s_clk_sel = 1\<rparr>"

definition ext_ok :: ext where
  "ext_ok =
     \<lparr>rx_dma_config_ret = 0, rx_dma_start_ret = 0, rx_dma_reload_ret = 0,
      tx_dma_config_ret = 0, tx_dma_start_ret = 0, tx_dma_reload_ret = 0,
      plli2s_locks = True, freq_in = 12288000\<rparr>"

text \<open>An example configuration: 16-bit stereo at 48 kHz, blocks of 64 bytes from the pool at 500.\<close>

definition example_config :: i2s_config where
  "example_config =
     \<lparr>word_size = 16, channels = 2, format = 0, options = 0, frame_clk_freq = 48000,
      mem_slab = 500, block_size = 64, timeout = 100\<rparr>"

text \<open>
  The instance with two blocks per direction and a pool whose block 601 the
  application holds, first as a successful configuration of both directions leaves it,
  then as a write of block 601 followed by a full-duplex START leaves it, and finally
  after two further RX completions, with two received blocks waiting in the RX queue
  of capacity two (\<open>dev_ready_reached\<close>, \<open>dev_running_reached\<close> and
  \<open>dev_rx_full_reached\<close> below). \<open>dev_tx_repeat\<close> is the configured device after a
  write of block 601 and a START of the TX direction in a build with the
  repeat-last-block policy, where START has taken block 602 as the block to repeat
  (\<open>dev_tx_repeat_reached\<close>).
\<close>

definition dev_ready :: dev where
  "dev_ready =
     (let s = i2s_stm32_data_init 2 2 ((\<lambda>_. [])(500 := [602, 603, 604, 605, 606])) in
      s\<lparr>rx := (rx s)\<lparr>state := I2S_STATE_READY, cfg := example_config, master := True\<rparr>,
        tx := (tx s)\<lparr>state := I2S_STATE_READY, cfg := example_config, master := True\<rparr>,
        i2s := (i2s s)\<lparr>ClockSource := 1, PrescalerLinear := 4\<rparr>\<rparr>)"

definition dev_running :: dev where
  "dev_running =
     dev_ready\<lparr>
       rx := (rx dev_ready)\<lparr>state := I2S_STATE_RUNNING, mem_block := 602\<rparr>,
       tx := (tx dev_ready)\<lparr>state := I2S_STATE_RUNNING, mem_block := 601, mem_block_size := 64,
               mem_block_queue :=
                 \<lparr>buf = [(601, 64), (NULL, 0), (NULL, 0)], len = 3, head = 1, tail = 1\<rparr>\<rparr>,
       i2s := (i2s dev_ready)\<lparr>Enabled := True, DMAReq_RX := True, DMAReq_TX := True,
               IT_ERR := True, TransferMode := LL_I2S_MODE_MASTER_FULL_DUPLEX\<rparr>,
       rx_dma := \<lparr>dma_running = True, dma_source_address = 1000, dma_dest_address = 602,
                  dma_block_size = 64, dma_source_addr_inc = False, dma_dest_addr_inc = True,
                  dma_fifo_mode_control = 0\<rparr>,
       tx_dma := \<lparr>dma_running = True, dma_source_address = 601, dma_dest_address = 1000,
                  dma_block_size = 64, dma_source_addr_inc = True, dma_dest_addr_inc = False,
                  dma_fifo_mode_control = 0\<rparr>,
       slabs := (slabs dev_ready)(500 := [603, 604, 605, 606]),
       active_dma_rx_channel := (replicate 8 False)[3 := True],
       active_dma_tx_channel := (replicate 8 False)[4 := True]\<rparr>"

definition dev_rx_full :: dev where
  "dev_rx_full =
     dev_running\<lparr>
       rx := (rx dev_running)\<lparr>mem_block := 604,
               mem_block_queue :=
                 \<lparr>buf = [(602, 64), (603, 64), (NULL, 0)], len = 3, head = 2, tail = 0\<rparr>,
               sem := \<lparr>sem_count = 2, sem_limit = 2\<rparr>\<rparr>,
       rx_dma := (rx_dma dev_running)\<lparr>dma_dest_address := 604\<rparr>,
       slabs := (slabs dev_running)(500 := [605, 606])\<rparr>"

definition dev_tx_repeat :: dev where
  "dev_tx_repeat =
     dev_ready\<lparr>
       tx := (tx dev_ready)\<lparr>state := I2S_STATE_RUNNING, mem_block := 601, mem_block_size := 64,
               last_mem_block := 602, last_mem_block_size := 64,
               mem_block_queue :=
                 \<lparr>buf = [(601, 64), (NULL, 0), (NULL, 0)], len = 3, head = 1, tail = 1\<rparr>\<rparr>,
       i2s := (i2s dev_ready)\<lparr>Enabled := True, DMAReq_TX := True, IT_ERR := True,
               TransferMode := LL_I2S_MODE_MASTER_TX\<rparr>,
       tx_dma := \<lparr>dma_running = True, dma_source_address = 601, dma_dest_address = 1000,
                  dma_block_size = 64, dma_source_addr_inc = True, dma_dest_addr_inc = False,
                  dma_fifo_mode_control = 0\<rparr>,
       slabs := (slabs dev_ready)(500 := [603, 604, 605, 606]),
       active_dma_tx_channel := (replicate 8 False)[4 := True]\<rparr>"
subsection \<open>The block queue is a FIFO\<close>

lemma unat_inc16:
  fixes val :: "16 word"
  assumes "val < mx"
  shows "unat (val + 1) = Suc (unat val)"
proof -
  have "unat val < unat mx" using assms by (simp add: word_less_nat_alt)
  moreover have "unat mx < 2 ^ 16" using unsigned_less [of mx, where 'a = nat] by simp
  ultimately have "unat val + unat (1 :: 16 word) < 2 ^ LENGTH(16)" by simp
  then have "unat (val + 1) = unat val + unat (1 :: 16 word)"
    by (simp only: unat_add_lem [THEN iffD1])
  then show ?thesis by simp
qed

lemma MODULO_INC_unat:
  assumes "val < mx"
  shows "unat (MODULO_INC val mx) = Suc (unat val) mod unat mx"
proof -
  have lt: "unat val < unat mx" using assms by (simp add: word_less_nat_alt)
  have s: "unat (val + 1) = Suc (unat val)" by (rule unat_inc16 [OF assms])
  show ?thesis
  proof (cases "val + 1 < mx")
    case True
    then have "Suc (unat val) < unat mx" using s by (simp add: word_less_nat_alt)
    then show ?thesis using True s by (simp add: MODULO_INC_def)
  next
    case False
    then have "\<not> Suc (unat val) < unat mx" using s by (simp add: word_less_nat_alt)
    with lt have "Suc (unat val) = unat mx" by simp
    then show ?thesis using False by (simp add: MODULO_INC_def)
  qed
qed

lemma MODULO_INC_lt: 
  assumes "val < mx" shows "MODULO_INC val mx < mx"
proof -
  have "0 < unat mx" using assms by (simp add: word_less_nat_alt)
  then have "Suc (unat val) mod unat mx < unat mx" by simp
  then show ?thesis using MODULO_INC_unat [OF assms] by (simp add: word_less_nat_alt)
qed

lemma rb_slots_length: "length (rb_slots b t n) = n"
  by (induction n arbitrary: t) simp_all

lemma rb_slots_snoc:
  "t < length b \<Longrightarrow> rb_slots b t (Suc n) = rb_slots b t n @ [b ! ((t + n) mod length b)]"
proof (induction n arbitrary: t)
  case 0
  then show ?case by simp
next
  case (Suc n)
  have "0 < length b" using Suc.prems by linarith
  then have L: "Suc t mod length b < length b" by simp
  have "(Suc t mod length b + n) mod length b = (t + Suc n) mod length b"
    by (simp add: mod_add_left_eq)
  then show ?case using Suc.IH [OF L] by simp
qed

lemma mod_shift_neq:
  fixes t i n L :: nat
  assumes "i < n" "n < L"
  shows "(t + i) mod L \<noteq> (t + n) mod L"
proof
  assume "(t + i) mod L = (t + n) mod L"
  then have "(t + n) mod L = (t + i) mod L" by simp
  moreover have "t + i \<le> t + n" using assms by simp
  ultimately have "L dvd (t + n) - (t + i)" by (simp only: mod_eq_dvd_iff_nat)
  then have "L dvd n - i" by simp
  moreover have "0 < n - i" "n - i < L" using assms by simp_all
  ultimately show False by (auto dest: dvd_imp_le)
qed

lemma rb_slots_update_gen:
  "t < length b \<Longrightarrow> \<forall>i<n. (t + i) mod length b \<noteq> j \<Longrightarrow>
   rb_slots (b[j := x]) t n = rb_slots b t n"
proof (induction n arbitrary: t)
  case 0
  show ?case by simp
next
  case (Suc n)
  have t: "t \<noteq> j" using Suc.prems by (metis add_0_right mod_less zero_less_Suc)
  have "0 < length b" using Suc.prems(1) by linarith
  then have L: "Suc t mod length b < length b" by simp
  have "\<forall>i<n. (Suc t mod length b + i) mod length b \<noteq> j"
  proof (intro allI impI)
    fix i assume "i < n"
    then have "Suc i < Suc n" by simp
    with Suc.prems(2) have "(t + Suc i) mod length b \<noteq> j" by blast
    moreover have "(Suc t mod length b + i) mod length b = (t + Suc i) mod length b"
      by (simp add: mod_add_left_eq)
    ultimately show "(Suc t mod length b + i) mod length b \<noteq> j" by simp
  qed
  then have "rb_slots (b[j := x]) (Suc t mod length b) n = rb_slots b (Suc t mod length b) n"
    using Suc.IH [OF L] by simp
  then show ?case using t by simp
qed

lemma rb_slots_update:
  assumes "n < length b" "t < length b"
  shows "rb_slots (b[(t + n) mod length b := x]) t n = rb_slots b t n"
  using assms by (intro rb_slots_update_gen) (auto simp: mod_shift_neq)

lemma ring_count_eq:
  fixes h t L :: nat
  assumes "h < L" "t < L"
  shows "(h + L - t) mod L = (if t \<le> h then h - t else h + L - t)"
proof (cases "t \<le> h")
  case True
  then have "h + L - t = (h - t) + L" by simp
  then have "(h + L - t) mod L = (h - t) mod L" by (simp only: mod_add_self2)
  then show ?thesis using True assms by simp
next
  case False
  then have "h + L - t < L" using assms by simp
  then show ?thesis using False by simp
qed

lemma ring_succ_eq:
  fixes t L :: nat
  assumes "t < L"
  shows "Suc t mod L = (if Suc t < L then Suc t else 0)"
proof (cases "Suc t < L")
  case True then show ?thesis by simp
next
  case False
  then have "Suc t = L" using assms by simp
  then show ?thesis by simp
qed

lemma ring_count_get:
  fixes h t L :: nat
  assumes "h < L" "t < L" "h \<noteq> t"
  shows "(h + L - t) mod L = Suc ((h + L - Suc t mod L) mod L)"
proof -
  have t': "Suc t mod L < L" using assms(2) by simp
  show ?thesis
    unfolding ring_count_eq [OF assms(1,2)] ring_count_eq [OF assms(1) t']
    using assms by (auto simp: ring_succ_eq)
qed

lemma ring_count_put:
  fixes h t L :: nat
  assumes "h < L" "t < L" "Suc h mod L \<noteq> t"
  shows "(Suc h mod L + L - t) mod L = Suc ((h + L - t) mod L)"
proof -
  have h': "Suc h mod L < L" using assms(1) by simp
  show ?thesis
    unfolding ring_count_eq [OF assms(1,2)] ring_count_eq [OF h' assms(2)]
    using assms by (auto simp: ring_succ_eq split: if_splits)
qed

lemma ring_count_full:
  fixes h t L :: nat
  assumes "h < L" "t < L"
  shows "Suc h mod L = t \<longleftrightarrow> Suc ((h + L - t) mod L) = L"
  unfolding ring_count_eq [OF assms]
  using assms by (auto simp: ring_succ_eq split: if_splits)

lemma ring_head_eq:
  fixes h t L :: nat
  assumes "h < L" "t < L"
  shows "(t + (h + L - t) mod L) mod L = h"
  unfolding ring_count_eq [OF assms]
  using assms by (auto simp: ring_succ_eq split: if_splits)

lemma rb_wf_nat:
  assumes "rb_wf rb"
  shows "length (buf rb) = unat (len rb)" "unat (head rb) < unat (len rb)"
    "unat (tail rb) < unat (len rb)"
  using assms by (simp_all add: rb_wf_def word_less_nat_alt)

lemma rb_count_lt: "rb_wf rb \<Longrightarrow> rb_count rb < unat (len rb)"
  by (simp add: rb_wf_def rb_count_def word_less_nat_alt)

lemma rb_count_0_iff:
  assumes "rb_wf rb"
  shows "rb_count rb = 0 \<longleftrightarrow> tail rb = head rb"
proof -
  have "rb_count rb = 0 \<longleftrightarrow> unat (tail rb) = unat (head rb)"
    unfolding rb_count_def ring_count_eq [OF rb_wf_nat(2,3) [OF assms]]
    using rb_wf_nat [OF assms] by auto
  then show ?thesis by (simp add: word_unat_eq_iff)
qed

lemma queue_get_Inl_iff: "queue_get rb = Inl e \<longleftrightarrow> tail rb = head rb \<and> e = - ENOMEM"
  by (auto simp: queue_get_def)

lemma queue_get_Inr:
  assumes "rb_wf rb" "queue_get rb = Inr (it, rb')"
  shows "rb_wf rb'" "rb_items rb = it # rb_items rb'" "rb_count rb = Suc (rb_count rb')"
    "len rb' = len rb" "head rb' = head rb" "buf rb' = buf rb"
proof -
  have ne: "tail rb \<noteq> head rb" and it: "it = buf rb ! unat (tail rb)"
    and rb': "rb' = rb\<lparr>tail := MODULO_INC (tail rb) (len rb)\<rparr>"
    using assms(2) by (auto simp: queue_get_def split: if_splits)
  have tl: "tail rb < len rb" using assms(1) by (simp add: rb_wf_def)
  have t': "unat (tail rb') = Suc (unat (tail rb)) mod unat (len rb)"
    using MODULO_INC_unat [OF tl] rb' by simp
  show "rb_wf rb'" using assms(1) MODULO_INC_lt [OF tl] rb' by (simp add: rb_wf_def)
  show "len rb' = len rb" "head rb' = head rb" "buf rb' = buf rb" using rb' by simp_all
  have "unat (head rb) \<noteq> unat (tail rb)" using ne by (simp add: word_unat_eq_iff)
  then show c: "rb_count rb = Suc (rb_count rb')"
    using ring_count_get [OF rb_wf_nat(2,3) [OF assms(1)]] t' rb'
    by (simp add: rb_count_def)
  show "rb_items rb = it # rb_items rb'"
    using c it t' rb' rb_wf_nat(1) [OF assms(1)] by (simp add: rb_items_def)
qed

lemma queue_put_Inl_iff:
  assumes "rb_wf rb"
  shows "queue_put rb b sz = Inl e \<longleftrightarrow> Suc (rb_count rb) = unat (len rb) \<and> e = - ENOMEM"
proof -
  have hd: "head rb < len rb" using assms by (simp add: rb_wf_def)
  have "MODULO_INC (head rb) (len rb) = tail rb \<longleftrightarrow>
      Suc (unat (head rb)) mod unat (len rb) = unat (tail rb)"
    using MODULO_INC_unat [OF hd] by (simp add: word_unat_eq_iff)
  also have "\<dots> \<longleftrightarrow> Suc (rb_count rb) = unat (len rb)"
    unfolding rb_count_def by (rule ring_count_full [OF rb_wf_nat(2,3) [OF assms]])
  finally show ?thesis by (auto simp: queue_put_def Let_def)
qed

lemma queue_put_Inr:
  assumes "rb_wf rb" "queue_put rb b sz = Inr rb'"
  shows "rb_wf rb'" "rb_items rb' = rb_items rb @ [(b, sz)]" "rb_count rb' = Suc (rb_count rb)"
    "len rb' = len rb" "tail rb' = tail rb"
proof -
  let ?L = "unat (len rb)"
  have ne: "MODULO_INC (head rb) (len rb) \<noteq> tail rb"
    and rb': "rb' = rb\<lparr>buf := (buf rb)[unat (head rb) := (b, sz)],
                   head := MODULO_INC (head rb) (len rb)\<rparr>"
    using assms(2) by (auto simp: queue_put_def Let_def split: if_splits)
  have hd: "head rb < len rb" using assms(1) by (simp add: rb_wf_def)
  note nat = rb_wf_nat [OF assms(1)]
  have h': "unat (head rb') = Suc (unat (head rb)) mod ?L"
    using MODULO_INC_unat [OF hd] rb' by simp
  show "rb_wf rb'" using assms(1) MODULO_INC_lt [OF hd] rb' by (simp add: rb_wf_def)
  show "len rb' = len rb" "tail rb' = tail rb" using rb' by simp_all
  have "Suc (unat (head rb)) mod ?L \<noteq> unat (tail rb)"
    using ne MODULO_INC_unat [OF hd] by (simp add: word_unat_eq_iff)
  then show c: "rb_count rb' = Suc (rb_count rb)"
    using ring_count_put [OF nat(2,3)] h' rb' by (simp add: rb_count_def)
  have hidx: "(unat (tail rb) + rb_count rb) mod length (buf rb) = unat (head rb)"
    unfolding rb_count_def nat(1) by (rule ring_head_eq [OF nat(2,3)])
  have cnt: "rb_count rb < length (buf rb)" using rb_count_lt [OF assms(1)] nat(1) by simp
  have tl: "unat (tail rb) < length (buf rb)" using nat by simp
  have "rb_items rb' = rb_slots (buf rb') (unat (tail rb)) (Suc (rb_count rb))"
    using c rb' by (simp add: rb_items_def)
  also have "\<dots> = rb_slots (buf rb') (unat (tail rb)) (rb_count rb) @ [(b, sz)]"
    using rb_slots_snoc [of "unat (tail rb)" "buf rb'" "rb_count rb"] hidx tl nat rb'
    by simp
  also have "rb_slots (buf rb') (unat (tail rb)) (rb_count rb) = rb_items rb"
    using rb_slots_update [OF cnt tl, of "(b, sz)"] hidx rb' by (simp add: rb_items_def)
  finally show "rb_items rb' = rb_items rb @ [(b, sz)]" .
qed

lemma queue_get_all_wf:
  "rb_wf rb \<Longrightarrow> queue_get_all rb = Some (rb_items rb, rb\<lparr>tail := head rb\<rparr>)"
proof (induction n \<equiv> "rb_count rb" arbitrary: rb)
  case 0
  then have "tail rb = head rb" by (simp add: rb_count_0_iff)
  moreover from this have "rb\<lparr>tail := head rb\<rparr> = rb" by (metis ring_buf.surjective ring_buf.update_convs(4) ring_buf.select_convs(4))
  moreover have "rb_items rb = []" using 0 by (simp add: rb_items_def)
  ultimately show ?case by (subst queue_get_all.simps) (simp add: queue_get_def)
next
  case (Suc n)
  then have "tail rb \<noteq> head rb" using rb_count_0_iff [of rb] by auto
  then obtain it rb' where g: "queue_get rb = Inr (it, rb')" by (auto simp: queue_get_def)
  note r = queue_get_Inr [OF Suc.prems g]
  have "n = rb_count rb'" using Suc.hyps(2) r(3) by simp
  then have "queue_get_all rb' = Some (rb_items rb', rb'\<lparr>tail := head rb'\<rparr>)"
    using Suc.hyps(1) r(1) by simp
  moreover have "rb'\<lparr>tail := head rb'\<rparr> = rb\<lparr>tail := head rb\<rparr>"
    using g by (auto simp: queue_get_def split: if_splits)
  ultimately show ?case using g r(2) by (subst queue_get_all.simps) simp
qed

lemma queue_run_items:
  "rb_wf rb \<Longrightarrow> queue_run rb ops = Some (got, rb') \<Longrightarrow>
   rb_wf rb' \<and> len rb' = len rb \<and> rb_items rb @ puts_of ops = got @ rb_items rb'"
proof (induction rb ops arbitrary: got rb' rule: queue_run.induct)
  case (1 rb)
  then show ?case by simp
next
  case (2 rb b sz ops)
  from "2.prems"(2) obtain rb1 where p: "queue_put rb b sz = Inr rb1"
    and r: "queue_run rb1 ops = Some (got, rb')"
    by (auto split: sum.splits)
  note w = queue_put_Inr [OF "2.prems"(1) p]
  show ?case using "2.IH" [OF p w(1) r] w(2,4) by simp
next
  case (3 rb ops)
  show ?case
  proof (cases "queue_get rb")
    case (Inl e)
    then have "rb_items rb = []" using "3.prems"(1) rb_count_0_iff [of rb]
      by (simp add: queue_get_Inl_iff rb_items_def)
    then show ?thesis using "3.IH"(1) [OF Inl "3.prems"(1)] "3.prems"(2) Inl by simp
  next
    case (Inr p)
    obtain it rb1 where p: "p = (it, rb1)" by (cases p)
    from "3.prems"(2) Inr p obtain got1 where r: "queue_run rb1 ops = Some (got1, rb')"
      and got: "got = it # got1"
      by (auto split: option.splits)
    note w = queue_get_Inr [OF "3.prems"(1) Inr [unfolded p]]
    show ?thesis using "3.IH"(2) [OF Inr p [symmetric] w(1) r] w(2,4) got by simp
  qed
qed

text \<open>
  C1. Starting from an empty, well-formed queue, run any sequence of puts and gets in
  which no put was refused. With \<open>N\<close> the number of puts and \<open>M\<close> the number of
  successful gets, the entries the gets returned are the first \<open>M\<close> entries put, in
  the order they were put; repeating \<open>queue_get\<close> then retrieves exactly the remaining
  \<open>N - M\<close> entries, again in put order. The number of queued entries stays below the
  number \<open>len\<close> of physical slots, and the next put is refused exactly when
  \<open>len - 1\<close> entries are queued: one slot is reserved, so \<open>C\<close> usable slots need
  \<open>C + 1\<close> physical slots.
\<close>

theorem queue_fifo:
  assumes "rb_wf rb" and "tail rb = head rb" and "queue_run rb ops = Some (got, rb')"
  shows "\<exists>rest rb''. queue_get_all rb' = Some (rest, rb'')
           \<and> length rest = length (puts_of ops) - length got
           \<and> got = take (length got) (puts_of ops)
           \<and> rest = drop (length got) (puts_of ops)
           \<and> Suc (length rest) \<le> unat (len rb)
           \<and> (\<forall>b sz. queue_put rb' b sz = Inl (- ENOMEM) \<longleftrightarrow> Suc (length rest) = unat (len rb))
           \<and> (\<forall>b sz. (\<exists>rb2. queue_put rb' b sz = Inr rb2) \<longleftrightarrow> Suc (length rest) < unat (len rb))"
proof -
  have e: "rb_items rb = []" using assms(1,2) rb_count_0_iff [of rb] by (simp add: rb_items_def)
  from queue_run_items [OF assms(1,3)] e
  have w: "rb_wf rb'" and l: "len rb' = len rb" and i: "puts_of ops = got @ rb_items rb'"
    by simp_all
  have n: "length (rb_items rb') = rb_count rb'" by (simp add: rb_items_def rb_slots_length)
  have c: "Suc (rb_count rb') \<le> unat (len rb)" using rb_count_lt [OF w] l by simp
  have full: "queue_put rb' b sz = Inl (- ENOMEM) \<longleftrightarrow> Suc (rb_count rb') = unat (len rb)" for b sz
    using queue_put_Inl_iff [OF w, of b sz "- ENOMEM"] l by simp
  have ok: "(\<exists>rb2. queue_put rb' b sz = Inr rb2) \<longleftrightarrow> Suc (rb_count rb') < unat (len rb)" for b sz
  proof (cases "queue_put rb' b sz")
    case (Inl e)
    then show ?thesis using queue_put_Inl_iff [OF w, of b sz e] l by simp
  next
    case (Inr rb2)
    then have "queue_put rb' b sz \<noteq> Inl (- ENOMEM)" by simp
    then have "Suc (rb_count rb') \<noteq> unat (len rb)" using full by simp
    then show ?thesis using Inr c by simp
  qed
  show ?thesis
    using queue_get_all_wf [OF w] i n c full ok by simp
qed

theorem queue_fifo_witness:
  "\<exists>rest rb''.
     queue_get_all \<lparr>buf = [(1, 10), (2, 20), (0, 0)], len = 3, head = 2, tail = 1\<rparr> = Some (rest, rb'')
     \<and> rest = [(2, 20)]"
proof -
  let ?rb = "\<lparr>buf = [(0, 0), (0, 0), (0, 0)], len = 3, head = 0, tail = 0\<rparr>"
  let ?rb' = "\<lparr>buf = [(1, 10), (2, 20), (0, 0)], len = 3, head = 2, tail = 1\<rparr>"
  have w: "rb_wf ?rb" by (simp add: rb_wf_def)
  have e: "tail ?rb = head ?rb" by simp
  have r: "queue_run ?rb [Put 1 10, Get, Put 2 20] = Some ([(1, 10)], ?rb')"
    by (simp add: queue_put_def queue_get_def MODULO_INC_def)
  from queue_fifo [OF w e r] obtain rest rb''
    where "queue_get_all ?rb' = Some (rest, rb'')"
      and "rest = drop (length [(1 :: nat, 10 :: 32 word)]) (puts_of [Put 1 10, Get, Put 2 20])"
    by blast
  then show ?thesis by simp
qed



subsection \<open>Unfolding the example instance\<close>

lemmas instance_defs = dev_tx_repeat_def dev_rx_full_def dev_running_def dev_ready_def i2s_stm32_data_init_def
  stream_init_def ring_buf_init_def i2s_regs_reset_def dma_chan_reset_def example_config_def
  zero_i2s_config_def kconfig_of_def i2s_h_values_def board_cfg_def ext_ok_def

subsection \<open>Dropping the queue, disabling a stream\<close>

lemma rb_tail_to_head_id: "tail rb = head rb \<Longrightarrow> rb\<lparr>tail := head rb\<rparr> = rb"
  by (cases rb) simp

lemma rb_items_empty: "rb_wf rb \<Longrightarrow> tail rb = head rb \<Longrightarrow> rb_items rb = []"
  using rb_count_0_iff [of rb] by (simp add: rb_items_def)

lemma queue_get_tail_head:
  "queue_get rb = Inr (it, rb') \<Longrightarrow> rb'\<lparr>tail := head rb'\<rparr> = rb\<lparr>tail := head rb\<rparr>"
  by (auto simp: queue_get_def split: if_splits)

lemma rx_queue_drop_loop_wf:
  "rb_wf (mem_block_queue (rx s)) \<Longrightarrow>
   rx_queue_drop_loop s =
     Some (s\<lparr>rx := (rx s)\<lparr>mem_block_queue :=
                 (mem_block_queue (rx s))\<lparr>tail := head (mem_block_queue (rx s))\<rparr>\<rparr>,
             slabs := fold (\<lambda>it. k_mem_slab_free (mem_slab (cfg (rx s))) (fst it))
                        (rb_items (mem_block_queue (rx s))) (slabs s)\<rparr>)"
proof (induction n \<equiv> "rb_count (mem_block_queue (rx s))" arbitrary: s)
  case 0
  then have e: "tail (mem_block_queue (rx s)) = head (mem_block_queue (rx s))"
    by (simp add: rb_count_0_iff)
  then show ?case
    using rb_items_empty [OF "0.prems" e] rb_tail_to_head_id [OF e]
    by (subst rx_queue_drop_loop.simps) (simp add: queue_get_def)
next
  case (Suc n)
  let ?q = "mem_block_queue (rx s)"
  have "tail ?q \<noteq> head ?q" using Suc.hyps(2) rb_count_0_iff [OF Suc.prems] by auto
  then obtain b sz rb' where g: "queue_get ?q = Inr ((b, sz), rb')"
    by (cases "buf ?q ! unat (tail ?q)") (auto simp: queue_get_def)
  note r = queue_get_Inr [OF Suc.prems g]
  let ?s1 = "s\<lparr>rx := (rx s)\<lparr>mem_block_queue := rb'\<rparr>,
               slabs := k_mem_slab_free (mem_slab (cfg (rx s))) b (slabs s)\<rparr>"
  have n: "n = rb_count (mem_block_queue (rx ?s1))" using Suc.hyps(2) r(3) by simp
  have w: "rb_wf (mem_block_queue (rx ?s1))" using r(1) by simp
  show ?case
    using Suc.hyps(1) [OF n w] g r(2) queue_get_tail_head [OF g]
    by (subst rx_queue_drop_loop.simps) simp
qed

lemma tx_queue_drop_loop_wf:
  "rb_wf (mem_block_queue (tx s)) \<Longrightarrow>
   tx_queue_drop_loop (n0, s) =
     Some (n0 + of_nat (length (rb_items (mem_block_queue (tx s)))),
           s\<lparr>tx := (tx s)\<lparr>mem_block_queue :=
                 (mem_block_queue (tx s))\<lparr>tail := head (mem_block_queue (tx s))\<rparr>\<rparr>,
             slabs := fold (\<lambda>it. k_mem_slab_free (mem_slab (cfg (tx s))) (fst it))
                        (rb_items (mem_block_queue (tx s))) (slabs s)\<rparr>)"
proof (induction n \<equiv> "rb_count (mem_block_queue (tx s))" arbitrary: s n0)
  case 0
  then have e: "tail (mem_block_queue (tx s)) = head (mem_block_queue (tx s))"
    by (simp add: rb_count_0_iff)
  then show ?case
    using rb_items_empty [OF "0.prems" e] rb_tail_to_head_id [OF e]
    by (subst tx_queue_drop_loop.simps) (simp add: queue_get_def)
next
  case (Suc n)
  let ?q = "mem_block_queue (tx s)"
  have "tail ?q \<noteq> head ?q" using Suc.hyps(2) rb_count_0_iff [OF Suc.prems] by auto
  then obtain b sz rb' where g: "queue_get ?q = Inr ((b, sz), rb')"
    by (cases "buf ?q ! unat (tail ?q)") (auto simp: queue_get_def)
  note r = queue_get_Inr [OF Suc.prems g]
  let ?s1 = "s\<lparr>tx := (tx s)\<lparr>mem_block_queue := rb'\<rparr>,
               slabs := k_mem_slab_free (mem_slab (cfg (tx s))) b (slabs s)\<rparr>"
  have n: "n = rb_count (mem_block_queue (tx ?s1))" using Suc.hyps(2) r(3) by simp
  have w: "rb_wf (mem_block_queue (tx ?s1))" using r(1) by simp
  show ?case
    using Suc.hyps(1) [OF n w, of "n0 + 1"] g r(2) queue_get_tail_head [OF g]
    by (subst tx_queue_drop_loop.simps) (simp add: add.assoc)
qed

lemma rx_queue_drop_wf:
  assumes "rb_wf (mem_block_queue (rx s))"
  shows "rx_queue_drop s =
     Some (s\<lparr>rx := (rx s)\<lparr>mem_block_queue :=
                 (mem_block_queue (rx s))\<lparr>tail := head (mem_block_queue (rx s))\<rparr>,
                 sem := k_sem_reset (sem (rx s))\<rparr>,
             slabs := fold (\<lambda>it. k_mem_slab_free (mem_slab (cfg (rx s))) (fst it))
                        (rb_items (mem_block_queue (rx s))) (slabs s)\<rparr>)"
  by (simp add: rx_queue_drop_def rx_queue_drop_loop_wf [OF assms])

lemma tx_queue_drop_wf:
  assumes "rb_wf (mem_block_queue (tx s))"
  shows "tx_queue_drop k s =
     Some (s\<lparr>tx := (tx s)\<lparr>mem_block_queue :=
                 (mem_block_queue (tx s))\<lparr>tail := head (mem_block_queue (tx s))\<rparr>,
                 sem := k_sem_give_n (unat (of_nat (length (rb_items (mem_block_queue (tx s)))) :: 32 word))
                          (sem (tx s))\<rparr>,
             slabs :=
               (let sl = fold (\<lambda>it. k_mem_slab_free (mem_slab (cfg (tx s))) (fst it))
                           (rb_items (mem_block_queue (tx s))) (slabs s)
                in if CONFIG_I2S_STM32_TX_UNDERRUN_LAST_REPEAT k
                   then k_mem_slab_free (mem_slab (cfg (tx s))) (last_mem_block (tx s)) sl
                   else sl)\<rparr>)"
  by (simp add: tx_queue_drop_def tx_queue_drop_loop_wf [OF assms] Let_def)

lemma rx_stream_disable_sel [simp]:
  "state (rx (rx_stream_disable k s)) = state (rx s)"
  "mem_block_queue (rx (rx_stream_disable k s)) = mem_block_queue (rx s)"
  "mem_block (rx (rx_stream_disable k s)) = NULL"
  "dma_running (rx_dma (rx_stream_disable k s)) = False"
  "DMAReq_RX (i2s (rx_stream_disable k s)) = False"
  "Enabled (i2s (rx_stream_disable k s)) = False"
  "tx (rx_stream_disable k s) = tx s"
  by (simp_all add: rx_stream_disable_def Let_def dma_stop_def LL_I2S_DisableIT_errors_def
      LL_SPI_SuspendMasterTransfer_def)

lemma tx_stream_disable_sel [simp]:
  "state (tx (tx_stream_disable k s)) = state (tx s)"
  "mem_block_queue (tx (tx_stream_disable k s)) = mem_block_queue (tx s)"
  "mem_block (tx (tx_stream_disable k s)) = NULL"
  "dma_running (tx_dma (tx_stream_disable k s)) = False"
  "DMAReq_TX (i2s (tx_stream_disable k s)) = False"
  "Enabled (i2s (tx_stream_disable k s)) = False"
  "rx (tx_stream_disable k s) = rx s"
  by (simp_all add: tx_stream_disable_def Let_def dma_stop_def LL_I2S_DisableIT_errors_def
      LL_SPI_SuspendMasterTransfer_def)

lemma full_duplex_stream_disable_sel [simp]:
  "state (rx (full_duplex_stream_disable k s)) = state (rx s)"
  "state (tx (full_duplex_stream_disable k s)) = state (tx s)"
  "mem_block_queue (rx (full_duplex_stream_disable k s)) = mem_block_queue (rx s)"
  "mem_block_queue (tx (full_duplex_stream_disable k s)) = mem_block_queue (tx s)"
  "mem_block (rx (full_duplex_stream_disable k s)) = NULL"
  "mem_block (tx (full_duplex_stream_disable k s)) = NULL"
  "dma_running (rx_dma (full_duplex_stream_disable k s)) = False"
  "dma_running (tx_dma (full_duplex_stream_disable k s)) = False"
  "DMAReq_RX (i2s (full_duplex_stream_disable k s)) = False"
  "DMAReq_TX (i2s (full_duplex_stream_disable k s)) = False"
  "Enabled (i2s (full_duplex_stream_disable k s)) = False"
  by (simp_all add: full_duplex_stream_disable_def Let_def dma_stop_def LL_I2S_DisableIT_errors_def
      LL_SPI_SuspendMasterTransfer_def)

lemma queue_get_emptied: "queue_get (rb\<lparr>tail := head rb\<rparr>) = Inl (- ENOMEM)"
  by (simp add: queue_get_def)

lemma disable_drop:
  assumes "rb_wf (mem_block_queue (strm sel s))"
  shows "\<exists>s1. queue_drop k sel (stream_disable k sel s) = Some s1
           \<and> state (strm sel s1) = state (strm sel s) \<and> stream_idle sel s1"
proof (cases sel)
  case Rx
  then have "rb_wf (mem_block_queue (rx (rx_stream_disable k s)))"
    using assms by (simp add: strm_def)
  from rx_queue_drop_wf [OF this] show ?thesis
    using Rx by (simp add: queue_drop_def stream_disable_def strm_def stream_idle_def stream_disabled_def
        queue_get_emptied)
next
  case Tx
  then have "rb_wf (mem_block_queue (tx (tx_stream_disable k s)))"
    using assms by (simp add: strm_def)
  from tx_queue_drop_wf [OF this] show ?thesis
    using Tx by (simp add: queue_drop_def stream_disable_def strm_def stream_idle_def stream_disabled_def
        queue_get_emptied)
qed

lemma full_duplex_disable_drop:
  assumes "rb_wf (mem_block_queue (rx s))" "rb_wf (mem_block_queue (tx s))"
  shows "\<exists>s1. full_duplex_queue_drop k (full_duplex_stream_disable k s) = Some s1
           \<and> state (rx s1) = state (rx s) \<and> state (tx s1) = state (tx s)
           \<and> stream_idle Rx s1 \<and> stream_idle Tx s1"
proof -
  let ?d = "full_duplex_stream_disable k s"
  have wr: "rb_wf (mem_block_queue (rx ?d))" using assms by simp
  note r = rx_queue_drop_wf [OF wr]
  then obtain s0 where s0: "rx_queue_drop ?d = Some s0" and tx0: "tx s0 = tx ?d"
    and rx0: "rx s0 = (rx ?d)\<lparr>mem_block_queue :=
                 (mem_block_queue (rx ?d))\<lparr>tail := head (mem_block_queue (rx ?d))\<rparr>,
                 sem := k_sem_reset (sem (rx ?d))\<rparr>"
    and i0: "i2s s0 = i2s ?d" "rx_dma s0 = rx_dma ?d" "tx_dma s0 = tx_dma ?d"
    by simp
  have wt: "rb_wf (mem_block_queue (tx s0))" using assms tx0 by simp
  from tx_queue_drop_wf [OF wt, of k] show ?thesis
    using s0 tx0 rx0 i0
    by (simp add: full_duplex_queue_drop_def strm_def stream_idle_def stream_disabled_def queue_get_emptied)
qed

lemma stream_idle_strm_set:
  "mem_block st = mem_block (strm sel s) \<Longrightarrow> mem_block_queue st = mem_block_queue (strm sel s)
   \<Longrightarrow> stream_idle sel (strm_set sel st s) = stream_idle sel s"
  by (cases sel) (simp_all add: stream_idle_def stream_disabled_def strm_def strm_set_def)

lemma strm_strm_set [simp]: "strm sel (strm_set sel st s) = st"
  by (cases sel) (simp_all add: strm_def strm_set_def)

lemma strm_set_strm_set [simp]: "strm_set sel st (strm_set sel st' s) = strm_set sel st s"
  by (cases sel) (simp_all add: strm_def strm_set_def)

subsection \<open>Stopping and draining\<close>

text \<open>
  C8. On a running stream with a well-formed queue, DRAIN and STOP both return 0 and
  end in the same device state up to one internal flag: STOP also sets \<open>last_block\<close>,
  which only the TX completion callback reads and which the next START clears. In
  that state the stream is READY and idle: the DMA channel is stopped, the DMA request
  line and the peripheral are off, no block is in flight and \<open>queue_get\<close> finds the
  queue empty. Neither trigger waits for queued blocks to be transferred. The same
  holds for the full-duplex triggers when both streams are running.
\<close>

theorem drain_same_as_stop:
  "(state (strm sel s) = I2S_STATE_RUNNING \<and> rb_wf (mem_block_queue (strm sel s)) \<longrightarrow>
      (\<exists>s'. i2s_stm32_trigger_half_duplex k c x sel I2S_TRIGGER_DRAIN s = Some (0, s')
          \<and> i2s_stm32_trigger_half_duplex k c x sel I2S_TRIGGER_STOP s =
              Some (0, strm_set sel ((strm sel s')\<lparr>last_block := True\<rparr>) s')
          \<and> state (strm sel s') = I2S_STATE_READY \<and> stream_idle sel s'))
   \<and> (state (rx s) = I2S_STATE_RUNNING \<and> state (tx s) = I2S_STATE_RUNNING
        \<and> rb_wf (mem_block_queue (rx s)) \<and> rb_wf (mem_block_queue (tx s)) \<longrightarrow>
      (\<exists>s'. i2s_stm32_trigger_full_duplex k c x I2S_TRIGGER_DRAIN s = Some (0, s')
          \<and> i2s_stm32_trigger_full_duplex k c x I2S_TRIGGER_STOP s =
              Some (0, s'\<lparr>rx := (rx s')\<lparr>last_block := True\<rparr>,
                         tx := (tx s')\<lparr>last_block := True\<rparr>\<rparr>)
          \<and> state (rx s') = I2S_STATE_READY \<and> state (tx s') = I2S_STATE_READY
          \<and> stream_idle Rx s' \<and> stream_idle Tx s'))"
proof (intro conjI impI; elim conjE)
  assume run: "state (strm sel s) = I2S_STATE_RUNNING" and wf: "rb_wf (mem_block_queue (strm sel s))"
  from disable_drop [OF wf, of k] obtain s1
    where d: "queue_drop k sel (stream_disable k sel s) = Some s1"
      and i: "stream_idle sel s1" by blast
  let ?s' = "strm_set sel ((strm sel s1)\<lparr>state := I2S_STATE_READY\<rparr>) s1"
  have "stream_idle sel ?s'" using i by (simp add: stream_idle_strm_set)
  then show "\<exists>s'. i2s_stm32_trigger_half_duplex k c x sel I2S_TRIGGER_DRAIN s = Some (0, s')
          \<and> i2s_stm32_trigger_half_duplex k c x sel I2S_TRIGGER_STOP s =
              Some (0, strm_set sel ((strm sel s')\<lparr>last_block := True\<rparr>) s')
          \<and> state (strm sel s') = I2S_STATE_READY \<and> stream_idle sel s'"
    using run d by (intro exI [of _ ?s']) (simp add: i2s_stm32_trigger_half_duplex_def)
next
  assume run: "state (rx s) = I2S_STATE_RUNNING" "state (tx s) = I2S_STATE_RUNNING"
    and wf: "rb_wf (mem_block_queue (rx s))" "rb_wf (mem_block_queue (tx s))"
  from full_duplex_disable_drop [OF wf, of k] obtain s1
    where d: "full_duplex_queue_drop k (full_duplex_stream_disable k s) = Some s1"
      and i: "stream_idle Rx s1" "stream_idle Tx s1" by blast
  let ?s' = "s1\<lparr>rx := (rx s1)\<lparr>state := I2S_STATE_READY\<rparr>,
               tx := (tx s1)\<lparr>state := I2S_STATE_READY\<rparr>\<rparr>"
  have "stream_idle Rx ?s'" "stream_idle Tx ?s'"
    using i by (simp_all add: stream_idle_def stream_disabled_def strm_def)
  then show "\<exists>s'. i2s_stm32_trigger_full_duplex k c x I2S_TRIGGER_DRAIN s = Some (0, s')
          \<and> i2s_stm32_trigger_full_duplex k c x I2S_TRIGGER_STOP s =
              Some (0, s'\<lparr>rx := (rx s')\<lparr>last_block := True\<rparr>,
                         tx := (tx s')\<lparr>last_block := True\<rparr>\<rparr>)
          \<and> state (rx s') = I2S_STATE_READY \<and> state (tx s') = I2S_STATE_READY
          \<and> stream_idle Rx s' \<and> stream_idle Tx s'"
    using run d by (intro exI [of _ ?s']) (simp add: i2s_stm32_trigger_full_duplex_def)
qed

theorem drain_same_as_stop_witness:
  "\<exists>s'. i2s_stm32_trigger_half_duplex (kconfig_of True False False) board_cfg ext_ok Tx
           I2S_TRIGGER_DRAIN dev_running = Some (0, s')
        \<and> state (tx s') = I2S_STATE_READY"
proof -
  have h: "state (strm Tx dev_running) = I2S_STATE_RUNNING \<and> rb_wf (mem_block_queue (strm Tx dev_running))"
    by (simp add: instance_defs strm_def rb_wf_def)
  have f: "state (rx dev_running) = I2S_STATE_RUNNING \<and> state (tx dev_running) = I2S_STATE_RUNNING
        \<and> rb_wf (mem_block_queue (rx dev_running)) \<and> rb_wf (mem_block_queue (tx dev_running))"
    by (simp add: instance_defs strm_def rb_wf_def)
  from drain_same_as_stop [of Tx dev_running "kconfig_of True False False" board_cfg ext_ok] h f
  show ?thesis by (auto simp: strm_def)
qed

subsection \<open>The START trigger\<close>

text \<open>
  C2. START on a stream that is not READY returns \<open>-EIO\<close> and leaves the whole device
  as it was (so the stream's state, its queue and its block in flight are unchanged),
  for the half-duplex trigger of either direction and for the full-duplex trigger. A
  START that succeeds was issued from READY and leaves the stream RUNNING, so a second
  START right after it fails in that way.
\<close>

theorem start_only_from_ready:
  "(state (strm sel s) \<noteq> I2S_STATE_READY \<longrightarrow>
      i2s_stm32_trigger_half_duplex k c x sel I2S_TRIGGER_START s = Some (- EIO, s)
      \<and> i2s_stm32_trigger_full_duplex k c x I2S_TRIGGER_START s = Some (- EIO, s))
   \<and> (i2s_stm32_trigger_half_duplex k c x sel I2S_TRIGGER_START s = Some (0, s') \<longrightarrow>
      state (strm sel s) = I2S_STATE_READY \<and> state (strm sel s') = I2S_STATE_RUNNING
      \<and> i2s_stm32_trigger_half_duplex k c x' sel I2S_TRIGGER_START s' = Some (- EIO, s'))"
proof (intro conjI impI)
  assume n: "state (strm sel s) \<noteq> I2S_STATE_READY"
  then show "i2s_stm32_trigger_half_duplex k c x sel I2S_TRIGGER_START s = Some (- EIO, s)"
    by (simp add: i2s_stm32_trigger_half_duplex_def)
  from n show "i2s_stm32_trigger_full_duplex k c x I2S_TRIGGER_START s = Some (- EIO, s)"
    by (cases sel) (simp_all add: i2s_stm32_trigger_full_duplex_def strm_def)
next
  assume ok: "i2s_stm32_trigger_half_duplex k c x sel I2S_TRIGGER_START s = Some (0, s')"
  then show r: "state (strm sel s) = I2S_STATE_READY"
    by (auto simp: i2s_stm32_trigger_half_duplex_def split: if_splits)
  from ok r show run: "state (strm sel s') = I2S_STATE_RUNNING"
    by (auto simp: i2s_stm32_trigger_half_duplex_def split: if_splits prod.splits)
  then show "i2s_stm32_trigger_half_duplex k c x' sel I2S_TRIGGER_START s' = Some (- EIO, s')"
    by (simp add: i2s_stm32_trigger_half_duplex_def)
qed

theorem start_only_from_ready_witness:
  "i2s_stm32_trigger_half_duplex (kconfig_of False False False) board_cfg ext_ok Tx
     I2S_TRIGGER_START dev_running = Some (- EIO, dev_running)
   \<and> (\<exists>s'. i2s_stm32_trigger_half_duplex (kconfig_of False False False) board_cfg ext_ok Rx
               I2S_TRIGGER_START dev_ready = Some (0, s')
           \<and> i2s_stm32_trigger_half_duplex (kconfig_of False False False) board_cfg ext_ok Rx
               I2S_TRIGGER_START s' = Some (- EIO, s'))"
proof -
  have n: "state (strm Tx dev_running) \<noteq> I2S_STATE_READY"
    by (simp add: instance_defs strm_def)
  obtain s' where
    ok: "i2s_stm32_trigger_half_duplex (kconfig_of False False False) board_cfg ext_ok Rx
           I2S_TRIGGER_START dev_ready = Some (0, s')"
    by (simp add: i2s_stm32_trigger_half_duplex_def stream_start_def rx_stream_start_def
        rx_stream_start_dma_def k_mem_slab_alloc_def start_dma_def dma_config_def dma_start_def
        instance_defs strm_def Let_def)
  show ?thesis
    using start_only_from_ready [of Tx dev_running "kconfig_of False False False" board_cfg ext_ok]
      start_only_from_ready [of Rx dev_ready "kconfig_of False False False" board_cfg ext_ok s' ext_ok]
      n ok by blast
qed

subsection \<open>The DROP trigger\<close>

lemma drop_half_duplex:
  assumes "state (strm sel s) \<noteq> I2S_STATE_NOT_READY" "rb_wf (mem_block_queue (strm sel s))"
  shows "\<exists>s'. i2s_stm32_trigger_half_duplex k c x sel I2S_TRIGGER_DROP s = Some (0, s')
           \<and> state (strm sel s') = I2S_STATE_READY \<and> stream_idle sel s'"
proof -
  from disable_drop [OF assms(2), of k] obtain s1
    where d: "queue_drop k sel (stream_disable k sel s) = Some s1"
      and i: "stream_idle sel s1" by blast
  let ?s' = "strm_set sel ((strm sel s1)\<lparr>state := I2S_STATE_READY\<rparr>) s1"
  have "stream_idle sel ?s'" using i by (simp add: stream_idle_strm_set)
  then show ?thesis
    using assms(1) d by (intro exI [of _ ?s']) (simp add: i2s_stm32_trigger_half_duplex_def)
qed

lemma drop_half_duplex_not_ready:
  "state (strm sel s) = I2S_STATE_NOT_READY \<Longrightarrow>
   i2s_stm32_trigger_half_duplex k c x sel I2S_TRIGGER_DROP s = Some (- EIO, s)"
  by (simp add: i2s_stm32_trigger_half_duplex_def)

lemma drop_full_duplex_rejected:
  "state (rx s) \<noteq> I2S_STATE_NOT_READY \<or> state (tx s) \<noteq> I2S_STATE_NOT_READY \<Longrightarrow>
   i2s_stm32_trigger_full_duplex k c x I2S_TRIGGER_DROP s = Some (- EIO, s)"
  by (auto simp: i2s_stm32_trigger_full_duplex_def)

text \<open>
  C3. The half-duplex DROP succeeds from every state but NOT_READY, disables the
  hardware, empties the queue and ends in READY (\<open>drop_half_duplex\<close> and
  \<open>drop_half_duplex_not_ready\<close> above). The full-duplex DROP does not: its state test
  is the opposite one, so on the instance with both streams RUNNING it returns \<open>-EIO\<close>
  and changes nothing.
\<close>

theorem full_duplex_drop_while_running:
  "i2s_stm32_trigger (kconfig_of True False False) board_cfg ext_ok I2S_DIR_BOTH
     I2S_TRIGGER_DROP dev_running = Some (- EIO, dev_running)
   \<and> state (rx dev_running) = I2S_STATE_RUNNING \<and> state (tx dev_running) = I2S_STATE_RUNNING"
  by (simp add: i2s_stm32_trigger_def i2s_stm32_trigger_full_duplex_def instance_defs)

subsection \<open>TX underrun in block mode\<close>

text \<open>
  C4. Without the repeat-last-block policy, a TX completion callback that finds the TX
  queue empty, with the stream not STOPPING and \<open>last_block\<close> not set, leaves the TX
  stream in ERROR with its DMA channel stopped, its DMA request line and the peripheral
  off, and no block in flight. This holds for any DMA status and any earlier state,
  in half-duplex and in full-duplex mode.
\<close>

theorem tx_underrun_block_mode:
  assumes "\<not> CONFIG_I2S_STM32_TX_UNDERRUN_LAST_REPEAT k"
    and "tail (mem_block_queue (tx s)) = head (mem_block_queue (tx s))"
    and "state (tx s) \<noteq> I2S_STATE_STOPPING" and "\<not> last_block (tx s)"
  shows "state (tx (dma_tx_callback k c x status s)) = I2S_STATE_ERROR
       \<and> stream_idle Tx (dma_tx_callback k c x status s)"
  using assms
  by (simp add: dma_tx_callback_def tx_disable_def Let_def queue_get_def stream_idle_def
      stream_disabled_def strm_def)

theorem tx_underrun_block_mode_witness:
  "state (tx (dma_tx_callback (kconfig_of False False False) board_cfg ext_ok 0 dev_running))
     = I2S_STATE_ERROR
   \<and> stream_idle Tx (dma_tx_callback (kconfig_of False False False) board_cfg ext_ok 0 dev_running)"
proof -
  have "\<not> CONFIG_I2S_STM32_TX_UNDERRUN_LAST_REPEAT (kconfig_of False False False)"
    "tail (mem_block_queue (tx dev_running)) = head (mem_block_queue (tx dev_running))"
    "state (tx dev_running) \<noteq> I2S_STATE_STOPPING" "\<not> last_block (tx dev_running)"
    by (simp_all add: instance_defs)
  then show ?thesis by (rule tx_underrun_block_mode)
qed

subsection \<open>RX overrun with the drop policy\<close>

text \<open>
  C6, amended. With the RX drop policy, take an RX completion with DMA status 0 on a
  RUNNING stream whose queue holds \<open>len - 1\<close> entries, where the pool has a block for
  the next transfer and the DMA reload is accepted. Then the completed block is back at
  the head of the pool's free list, the reader's semaphore is unchanged, the stream is
  still RUNNING, and the queue is exactly what it was, so the block never reaches a
  reader. The new block is the target of the running transfer.
\<close>

theorem rx_overrun_drop:
  assumes "CONFIG_I2S_STM32_RX_OVERRUN_DROP k"
    and "state (rx s) = I2S_STATE_RUNNING"
    and "rb_wf (mem_block_queue (rx s))"
    and "Suc (rb_count (mem_block_queue (rx s))) = unat (len (mem_block_queue (rx s)))"
    and "slabs s (mem_slab (cfg (rx s))) = nb # pool"
    and "0 \<le> rx_dma_reload_ret x" and "0 \<le> rx_dma_start_ret x"
  shows "state (rx (dma_rx_callback k c x 0 s)) = I2S_STATE_RUNNING
       \<and> sem (rx (dma_rx_callback k c x 0 s)) = sem (rx s)
       \<and> mem_block_queue (rx (dma_rx_callback k c x 0 s)) = mem_block_queue (rx s)
       \<and> slabs (dma_rx_callback k c x 0 s) (mem_slab (cfg (rx s))) = mem_block (rx s) # pool
       \<and> mem_block (rx (dma_rx_callback k c x 0 s)) = nb
       \<and> dma_running (rx_dma (dma_rx_callback k c x 0 s))
       \<and> dma_dest_address (rx_dma (dma_rx_callback k c x 0 s)) = nb"
proof -
  have full: "queue_put (mem_block_queue (rx s)) b sz = Inl (- ENOMEM)" for b sz
    using queue_put_Inl_iff [OF assms(3), of b sz "- ENOMEM"] assms(4) by simp
  show ?thesis
    using assms(1,2,5,6,7)
    by (simp add: dma_rx_callback_def k_mem_slab_alloc_def reload_dma_def dma_reload_def
        dma_start_def full k_mem_slab_free_def Let_def)
qed

theorem rx_overrun_drop_witness:
  "state (rx (dma_rx_callback (kconfig_of True True False) board_cfg ext_ok 0 dev_rx_full))
     = I2S_STATE_RUNNING
   \<and> sem (rx (dma_rx_callback (kconfig_of True True False) board_cfg ext_ok 0 dev_rx_full))
     = \<lparr>sem_count = 2, sem_limit = 2\<rparr>
   \<and> slabs (dma_rx_callback (kconfig_of True True False) board_cfg ext_ok 0 dev_rx_full) 500
     = [604, 606]"
proof -
  have h: "CONFIG_I2S_STM32_RX_OVERRUN_DROP (kconfig_of True True False)"
    "state (rx dev_rx_full) = I2S_STATE_RUNNING"
    "rb_wf (mem_block_queue (rx dev_rx_full))"
    "Suc (rb_count (mem_block_queue (rx dev_rx_full))) = unat (len (mem_block_queue (rx dev_rx_full)))"
    "slabs dev_rx_full (mem_slab (cfg (rx dev_rx_full))) = 605 # [606]"
    "0 \<le> rx_dma_reload_ret ext_ok" "0 \<le> rx_dma_start_ret ext_ok"
    by (simp_all add: instance_defs rb_wf_def rb_count_def)
  have v: "mem_block (rx dev_rx_full) = 604" "mem_slab (cfg (rx dev_rx_full)) = 500"
    "sem (rx dev_rx_full) = \<lparr>sem_count = 2, sem_limit = 2\<rparr>"
    by (simp_all add: instance_defs)
  from rx_overrun_drop [OF h, of board_cfg] show ?thesis by (simp add: v)
qed

text \<open>
  C6, counterexample. The allocation of the next block and the reload come before the
  hand-off of the completed block. On the instance with the RX queue at capacity, a
  completion whose reload is refused leaves block 604, the one just completed, neither
  in the pool nor in the queue, with the stream switched off; and when the application
  holds the last two blocks of the pool, the allocation fails, the stream ends in
  ERROR and block 604 is again not freed.
\<close>

theorem rx_overrun_before_handoff:
  "rb_count (mem_block_queue (rx dev_rx_full)) = 2
   \<and> mem_block (rx dev_rx_full) = 604
   \<and> slabs (dma_rx_callback (kconfig_of True True False) board_cfg
         (ext_ok\<lparr>rx_dma_reload_ret := - EIO\<rparr>) 0 dev_rx_full) 500 = [601, 605, 606]
   \<and> mem_block_queue (rx (dma_rx_callback (kconfig_of True True False) board_cfg
         (ext_ok\<lparr>rx_dma_reload_ret := - EIO\<rparr>) 0 dev_rx_full))
       = mem_block_queue (rx dev_rx_full)
   \<and> stream_disabled Rx (dma_rx_callback (kconfig_of True True False) board_cfg
         (ext_ok\<lparr>rx_dma_reload_ret := - EIO\<rparr>) 0 dev_rx_full)
   \<and> state (rx (dma_rx_callback (kconfig_of True True False) board_cfg ext_ok 0
         (dev_rx_full\<lparr>slabs := (slabs dev_rx_full)(500 := [])\<rparr>))) = I2S_STATE_ERROR
   \<and> slabs (dma_rx_callback (kconfig_of True True False) board_cfg ext_ok 0
         (dev_rx_full\<lparr>slabs := (slabs dev_rx_full)(500 := [])\<rparr>)) 500 = [601]"
  by (simp add: instance_defs rb_count_def dma_rx_callback_def rx_disable_def
      full_duplex_mode_def full_duplex_stream_disable_def k_mem_slab_alloc_def
      k_mem_slab_free_def reload_dma_def dma_reload_def dma_stop_def stream_disabled_def
      strm_def LL_I2S_DisableIT_errors_def LL_SPI_SuspendMasterTransfer_def Let_def)

subsection \<open>TX underrun with the repeat-last-block policy\<close>

lemma tx_repeat_step:
  assumes "CONFIG_I2S_STM32_TX_UNDERRUN_LAST_REPEAT k"
    and "state (tx s) = I2S_STATE_RUNNING" and "\<not> last_block (tx s)"
    and "tail (mem_block_queue (tx s)) = head (mem_block_queue (tx s))"
    and "tx_underrun (tx s) \<longrightarrow> last_mem_block (tx s) = mem_block (tx s)"
    and "0 \<le> tx_dma_reload_ret x" and "0 \<le> tx_dma_start_ret x"
  shows "state (tx (dma_tx_callback k c x 0 s)) = I2S_STATE_RUNNING"
    and "last_block (tx (dma_tx_callback k c x 0 s)) = False"
    and "mem_block_queue (tx (dma_tx_callback k c x 0 s)) = mem_block_queue (tx s)"
    and "mem_block (tx (dma_tx_callback k c x 0 s)) = mem_block (tx s)"
    and "last_mem_block (tx (dma_tx_callback k c x 0 s)) = mem_block (tx s)"
    and "tx_underrun (tx (dma_tx_callback k c x 0 s))"
    and "sem (tx (dma_tx_callback k c x 0 s)) = sem (tx s)"
    and "dma_running (tx_dma (dma_tx_callback k c x 0 s))"
    and "dma_source_address (tx_dma (dma_tx_callback k c x 0 s)) = mem_block (tx s)"
  using assms
  by (simp_all add: dma_tx_callback_def Let_def queue_get_def reload_dma_def dma_reload_def
      dma_start_def)

lemma tx_repeat_run:
  assumes "CONFIG_I2S_STM32_TX_UNDERRUN_LAST_REPEAT k"
    and "\<forall>x\<in>set xs. 0 \<le> tx_dma_reload_ret x \<and> 0 \<le> tx_dma_start_ret x"
    and "state (tx s) = I2S_STATE_RUNNING" and "\<not> last_block (tx s)"
    and "tail (mem_block_queue (tx s)) = head (mem_block_queue (tx s))"
    and "tx_underrun (tx s)" and "last_mem_block (tx s) = mem_block (tx s)"
    and "dma_running (tx_dma s)" and "dma_source_address (tx_dma s) = mem_block (tx s)"
  shows "state (tx (tx_completions k c xs s)) = I2S_STATE_RUNNING
       \<and> mem_block (tx (tx_completions k c xs s)) = mem_block (tx s)
       \<and> last_mem_block (tx (tx_completions k c xs s)) = mem_block (tx s)
       \<and> sem (tx (tx_completions k c xs s)) = sem (tx s)
       \<and> mem_block_queue (tx (tx_completions k c xs s)) = mem_block_queue (tx s)
       \<and> dma_running (tx_dma (tx_completions k c xs s))
       \<and> dma_source_address (tx_dma (tx_completions k c xs s)) = mem_block (tx s)"
  using assms(2-)
proof (induction xs arbitrary: s)
  case Nil
  then show ?case by simp
next
  case (Cons x xs)
  have r: "0 \<le> tx_dma_reload_ret x" "0 \<le> tx_dma_start_ret x" using Cons.prems(1) by simp_all
  have u: "tx_underrun (tx s) \<longrightarrow> last_mem_block (tx s) = mem_block (tx s)"
    using Cons.prems by simp
  note st = tx_repeat_step [OF assms(1) Cons.prems(2,3,4) u r, of c]
  have "\<forall>x\<in>set xs. 0 \<le> tx_dma_reload_ret x \<and> 0 \<le> tx_dma_start_ret x"
    using Cons.prems(1) by simp
  from Cons.IH [OF this, of "dma_tx_callback k c x 0 s"] st Cons.prems(4)
  show ?case by simp
qed

text \<open>
  C5, amended. With the repeat-last-block policy, start from a RUNNING TX stream that
  is sending a written block (no underrun so far) with an empty queue. After any
  non-empty run of completions with DMA status 0 whose reloads are accepted, the
  stream is still RUNNING, the block in flight and the cached last block are that same
  block, the DMA channel runs with it as its source, and the writer's semaphore is
  what it was at the start.
\<close>

theorem tx_repeat_last_block:
  assumes "CONFIG_I2S_STM32_TX_UNDERRUN_LAST_REPEAT k"
    and "state (tx s) = I2S_STATE_RUNNING" and "\<not> last_block (tx s)"
    and "tail (mem_block_queue (tx s)) = head (mem_block_queue (tx s))"
    and "\<not> tx_underrun (tx s)"
    and "xs \<noteq> []"
    and "\<forall>x\<in>set xs. 0 \<le> tx_dma_reload_ret x \<and> 0 \<le> tx_dma_start_ret x"
  shows "state (tx (tx_completions k c xs s)) = I2S_STATE_RUNNING
       \<and> mem_block (tx (tx_completions k c xs s)) = mem_block (tx s)
       \<and> last_mem_block (tx (tx_completions k c xs s)) = mem_block (tx s)
       \<and> sem (tx (tx_completions k c xs s)) = sem (tx s)
       \<and> mem_block_queue (tx (tx_completions k c xs s)) = mem_block_queue (tx s)
       \<and> dma_running (tx_dma (tx_completions k c xs s))
       \<and> dma_source_address (tx_dma (tx_completions k c xs s)) = mem_block (tx s)"
proof -
  obtain x ys where xs: "xs = x # ys" using assms(6) by (cases xs) auto
  have r: "0 \<le> tx_dma_reload_ret x" "0 \<le> tx_dma_start_ret x" using assms(7) xs by simp_all
  have u: "tx_underrun (tx s) \<longrightarrow> last_mem_block (tx s) = mem_block (tx s)"
    using assms(5) by simp
  note st = tx_repeat_step [OF assms(1-4) u r, of c]
  have ys: "\<forall>x\<in>set ys. 0 \<le> tx_dma_reload_ret x \<and> 0 \<le> tx_dma_start_ret x"
    using assms(7) xs by simp
  have q: "tail (mem_block_queue (tx (dma_tx_callback k c x 0 s)))
         = head (mem_block_queue (tx (dma_tx_callback k c x 0 s)))"
    using st(3) assms(4) by simp
  have l: "\<not> last_block (tx (dma_tx_callback k c x 0 s))" using st(2) by simp
  have m: "last_mem_block (tx (dma_tx_callback k c x 0 s)) = mem_block (tx (dma_tx_callback k c x 0 s))"
    using st(4,5) by simp
  have d: "dma_source_address (tx_dma (dma_tx_callback k c x 0 s)) = mem_block (tx (dma_tx_callback k c x 0 s))"
    using st(4,9) by simp
  from tx_repeat_run [OF assms(1) ys st(1) l q st(6) m st(8) d, of c]
  show ?thesis using xs st(3,4,7) by simp
qed

theorem tx_repeat_last_block_witness:
  "state (tx (tx_completions (kconfig_of False False True) board_cfg [ext_ok, ext_ok, ext_ok]
        dev_tx_repeat)) = I2S_STATE_RUNNING
   \<and> mem_block (tx (tx_completions (kconfig_of False False True) board_cfg [ext_ok, ext_ok, ext_ok]
        dev_tx_repeat)) = 601
   \<and> last_mem_block (tx (tx_completions (kconfig_of False False True) board_cfg
        [ext_ok, ext_ok, ext_ok] dev_tx_repeat)) = 601
   \<and> sem (tx (tx_completions (kconfig_of False False True) board_cfg [ext_ok, ext_ok, ext_ok]
        dev_tx_repeat)) = \<lparr>sem_count = 2, sem_limit = 2\<rparr>"
proof -
  have h: "CONFIG_I2S_STM32_TX_UNDERRUN_LAST_REPEAT (kconfig_of False False True)"
    "state (tx dev_tx_repeat) = I2S_STATE_RUNNING" "\<not> last_block (tx dev_tx_repeat)"
    "tail (mem_block_queue (tx dev_tx_repeat)) = head (mem_block_queue (tx dev_tx_repeat))"
    "\<not> tx_underrun (tx dev_tx_repeat)"
    "[ext_ok, ext_ok, ext_ok] \<noteq> []"
    "\<forall>x\<in>set [ext_ok, ext_ok, ext_ok]. 0 \<le> tx_dma_reload_ret x \<and> 0 \<le> tx_dma_start_ret x"
    by (simp_all add: instance_defs)
  have v: "mem_block (tx dev_tx_repeat) = 601"
    "sem (tx dev_tx_repeat) = \<lparr>sem_count = 2, sem_limit = 2\<rparr>"
    by (simp_all add: instance_defs)
  from tx_repeat_last_block [OF h, of board_cfg] show ?thesis by (simp add: v)
qed

text \<open>
  C5, counterexample. On the instance started with the repeat-last-block policy, whose
  queue is empty while the written block 601 is being sent, a completion with DMA
  status 0 whose reload is refused does not re-arm a block: afterwards no block is in
  flight and the TX stream's hardware is off.
\<close>

theorem tx_repeat_reload_refused:
  "state (tx dev_tx_repeat) = I2S_STATE_RUNNING
   \<and> mem_block (tx dev_tx_repeat) = 601
   \<and> queue_get (mem_block_queue (tx dev_tx_repeat)) = Inl (- ENOMEM)
   \<and> mem_block (tx (dma_tx_callback (kconfig_of False False True) board_cfg
         (ext_ok\<lparr>tx_dma_reload_ret := - EIO\<rparr>) 0 dev_tx_repeat)) = NULL
   \<and> dma_running (tx_dma (dma_tx_callback (kconfig_of False False True) board_cfg
         (ext_ok\<lparr>tx_dma_reload_ret := - EIO\<rparr>) 0 dev_tx_repeat)) = False
   \<and> stream_disabled Tx (dma_tx_callback (kconfig_of False False True) board_cfg
         (ext_ok\<lparr>tx_dma_reload_ret := - EIO\<rparr>) 0 dev_tx_repeat)"
  by (simp add: instance_defs dma_tx_callback_def tx_disable_def queue_get_def
      reload_dma_def dma_reload_def stream_disabled_def strm_def Let_def)

subsection \<open>Errors in full-duplex mode\<close>

lemma full_duplex_mode_upd [simp]:
  "full_duplex_mode (s\<lparr>rx := r\<rparr>) = full_duplex_mode s"
  "full_duplex_mode (s\<lparr>tx := t\<rparr>) = full_duplex_mode s"
  "full_duplex_mode (s\<lparr>slabs := sl\<rparr>) = full_duplex_mode s"
  "full_duplex_mode (s\<lparr>rx_dma := ch\<rparr>) = full_duplex_mode s"
  "full_duplex_mode (s\<lparr>tx_dma := ch\<rparr>) = full_duplex_mode s"
  by (simp_all add: full_duplex_mode_def)

lemma full_duplex_both_disabled:
  "stream_disabled Rx (full_duplex_stream_disable k s)"
  "stream_disabled Tx (full_duplex_stream_disable k s)"
  by (simp_all add: stream_disabled_def strm_def)

text \<open>
  C7, amended. With full-duplex support compiled in and the peripheral in a full-duplex
  transfer mode: an RX completion callback that sees a DMA error status, an earlier
  ERROR state, a failed allocation, or (in block mode) a refused put, and a TX
  completion callback that sees a DMA error status, an earlier ERROR state, or (in
  block mode, with no stop pending) an empty queue, each leave both streams in ERROR
  and both streams' hardware disabled. The error interrupt sets both streams to ERROR
  and leaves the DMA channels, the DMA request lines and the peripheral as they were.
\<close>

theorem full_duplex_error_coupling:
  assumes "CONFIG_I2S_STM32_FULL_DUPLEX k" and "full_duplex_mode s"
  shows "(status \<noteq> 0 \<or> state (rx s) = I2S_STATE_ERROR
            \<or> slabs s (mem_slab (cfg (rx s))) = []
            \<or> (\<not> CONFIG_I2S_STM32_RX_OVERRUN_DROP k
                \<and> 0 \<le> rx_dma_reload_ret x \<and> 0 \<le> rx_dma_start_ret x
                \<and> queue_put (mem_block_queue (rx s)) (mem_block (rx s)) (block_size (cfg (rx s)))
                    = Inl (- ENOMEM)) \<longrightarrow>
          state (rx (dma_rx_callback k c x status s)) = I2S_STATE_ERROR
          \<and> state (tx (dma_rx_callback k c x status s)) = I2S_STATE_ERROR
          \<and> stream_disabled Rx (dma_rx_callback k c x status s)
          \<and> stream_disabled Tx (dma_rx_callback k c x status s))
       \<and> (status \<noteq> 0 \<or> state (tx s) = I2S_STATE_ERROR
            \<or> (\<not> CONFIG_I2S_STM32_TX_UNDERRUN_LAST_REPEAT k \<and> \<not> last_block (tx s)
                \<and> state (tx s) \<noteq> I2S_STATE_STOPPING
                \<and> tail (mem_block_queue (tx s)) = head (mem_block_queue (tx s))) \<longrightarrow>
          state (rx (dma_tx_callback k c x status s)) = I2S_STATE_ERROR
          \<and> state (tx (dma_tx_callback k c x status s)) = I2S_STATE_ERROR
          \<and> stream_disabled Rx (dma_tx_callback k c x status s)
          \<and> stream_disabled Tx (dma_tx_callback k c x status s))
       \<and> state (rx (i2s_stm32_isr k s)) = I2S_STATE_ERROR
       \<and> state (tx (i2s_stm32_isr k s)) = I2S_STATE_ERROR
       \<and> rx_dma (i2s_stm32_isr k s) = rx_dma s \<and> tx_dma (i2s_stm32_isr k s) = tx_dma s
       \<and> Enabled (i2s (i2s_stm32_isr k s)) = Enabled (i2s s)
       \<and> DMAReq_RX (i2s (i2s_stm32_isr k s)) = DMAReq_RX (i2s s)
       \<and> DMAReq_TX (i2s (i2s_stm32_isr k s)) = DMAReq_TX (i2s s)"
proof (intro conjI impI)
  assume e: "status \<noteq> 0 \<or> state (rx s) = I2S_STATE_ERROR
            \<or> slabs s (mem_slab (cfg (rx s))) = []
            \<or> (\<not> CONFIG_I2S_STM32_RX_OVERRUN_DROP k
                \<and> 0 \<le> rx_dma_reload_ret x \<and> 0 \<le> rx_dma_start_ret x
                \<and> queue_put (mem_block_queue (rx s)) (mem_block (rx s)) (block_size (cfg (rx s)))
                    = Inl (- ENOMEM))"
  have "\<exists>s0. dma_rx_callback k c x status s = full_duplex_stream_disable k s0
           \<and> state (rx s0) = I2S_STATE_ERROR \<and> state (tx s0) = I2S_STATE_ERROR"
    using e assms
    by (auto simp: dma_rx_callback_def rx_disable_def Let_def k_mem_slab_alloc_def
        reload_dma_def dma_reload_def dma_start_def split: list.splits)
  then obtain s0 where s0: "dma_rx_callback k c x status s = full_duplex_stream_disable k s0"
    "state (rx s0) = I2S_STATE_ERROR" "state (tx s0) = I2S_STATE_ERROR" by blast
  show "state (rx (dma_rx_callback k c x status s)) = I2S_STATE_ERROR"
    "state (tx (dma_rx_callback k c x status s)) = I2S_STATE_ERROR"
    "stream_disabled Rx (dma_rx_callback k c x status s)"
    "stream_disabled Tx (dma_rx_callback k c x status s)"
    using s0 by (simp_all add: full_duplex_both_disabled)
next
  assume e: "status \<noteq> 0 \<or> state (tx s) = I2S_STATE_ERROR
            \<or> (\<not> CONFIG_I2S_STM32_TX_UNDERRUN_LAST_REPEAT k \<and> \<not> last_block (tx s)
                \<and> state (tx s) \<noteq> I2S_STATE_STOPPING
                \<and> tail (mem_block_queue (tx s)) = head (mem_block_queue (tx s)))"
  have "\<exists>s0. dma_tx_callback k c x status s = full_duplex_stream_disable k s0
           \<and> state (rx s0) = I2S_STATE_ERROR \<and> state (tx s0) = I2S_STATE_ERROR"
    using e assms
    by (auto simp: dma_tx_callback_def tx_disable_def Let_def queue_get_def)
  then obtain s0 where s0: "dma_tx_callback k c x status s = full_duplex_stream_disable k s0"
    "state (rx s0) = I2S_STATE_ERROR" "state (tx s0) = I2S_STATE_ERROR" by blast
  show "state (rx (dma_tx_callback k c x status s)) = I2S_STATE_ERROR"
    "state (tx (dma_tx_callback k c x status s)) = I2S_STATE_ERROR"
    "stream_disabled Rx (dma_tx_callback k c x status s)"
    "stream_disabled Tx (dma_tx_callback k c x status s)"
    using s0 by (simp_all add: full_duplex_both_disabled)
qed (use assms in \<open>simp_all add: i2s_stm32_isr_def Let_def\<close>)

theorem full_duplex_error_coupling_witness:
  "state (rx (dma_rx_callback (kconfig_of True False False) board_cfg ext_ok (- EIO) dev_running))
     = I2S_STATE_ERROR
   \<and> state (tx (dma_rx_callback (kconfig_of True False False) board_cfg ext_ok (- EIO) dev_running))
     = I2S_STATE_ERROR
   \<and> stream_disabled Tx (dma_rx_callback (kconfig_of True False False) board_cfg ext_ok (- EIO) dev_running)
   \<and> state (rx (dma_tx_callback (kconfig_of True False False) board_cfg ext_ok (- EIO) dev_running))
     = I2S_STATE_ERROR
   \<and> state (tx (i2s_stm32_isr (kconfig_of True False False) dev_running)) = I2S_STATE_ERROR"
proof -
  have h: "CONFIG_I2S_STM32_FULL_DUPLEX (kconfig_of True False False)" "full_duplex_mode dev_running"
    by (simp_all add: instance_defs full_duplex_mode_def)
  have e: "(- EIO :: int) \<noteq> 0" by simp
  from full_duplex_error_coupling [OF h, of "- EIO" ext_ok board_cfg] e show ?thesis by blast
qed

text \<open>
  C7, counterexample. On the running full-duplex instance neither stream's hardware is
  disabled after the error interrupt, and an RX completion whose DMA reload fails
  leaves the RX stream RUNNING.
\<close>

theorem isr_leaves_hardware_running:
  "full_duplex_mode dev_running
   \<and> stream_disabled Rx (i2s_stm32_isr (kconfig_of True False False) dev_running) = False
   \<and> stream_disabled Tx (i2s_stm32_isr (kconfig_of True False False) dev_running) = False
   \<and> state (rx (dma_rx_callback (kconfig_of True False False) board_cfg
                (ext_ok\<lparr>rx_dma_reload_ret := - EIO\<rparr>) 0 dev_running)) = I2S_STATE_RUNNING"
  by (simp add: instance_defs full_duplex_mode_def stream_disabled_def strm_def
      i2s_stm32_isr_def Let_def dma_rx_callback_def rx_disable_def k_mem_slab_alloc_def
      reload_dma_def dma_reload_def)

subsection \<open>Rejected configurations\<close>







subsection \<open>Starting TX needs a written block\<close>

lemma tx_start_empty:
  assumes "\<not> CONFIG_I2S_STM32_TX_UNDERRUN_LAST_REPEAT k"
    and "tail (mem_block_queue (tx s)) = head (mem_block_queue (tx s))"
  shows "tx_stream_start k c x s = (- ENOMEM, s)"
  using assms by (simp add: tx_stream_start_def tx_stream_start_dma_def queue_get_def)

lemma tx_start_ok_nonempty:
  assumes "\<not> CONFIG_I2S_STM32_TX_UNDERRUN_LAST_REPEAT k"
    and "tx_stream_start k c x s = (0, s')"
  shows "tail (mem_block_queue (tx s)) \<noteq> head (mem_block_queue (tx s))"
  using assms tx_start_empty [OF assms(1), of s c x] by auto

lemma queue_put_get_single:
  assumes "rb_wf q" "tail q = head q" "queue_put q b sz = Inr q'"
  shows "\<exists>q''. queue_get q' = Inr ((b, sz), q'')"
proof -
  note p = queue_put_Inr [OF assms(1,3)]
  have i: "rb_items q' = [(b, sz)]" using p(2) rb_items_empty [OF assms(1,2)] by simp
  have "rb_count q' \<noteq> 0" using p(3) by simp
  then have "tail q' \<noteq> head q'" using rb_count_0_iff [OF p(1)] by simp
  then obtain it q'' where g: "queue_get q' = Inr (it, q'')" by (auto simp: queue_get_def)
  from queue_get_Inr(2) [OF p(1) g] i have "it = (b, sz)" by simp
  then show ?thesis using g by blast
qed

text \<open>
  C10. Without the repeat-last-block policy: START on a READY TX stream with an empty
  queue returns the \<open>-ENOMEM\<close> of \<open>queue_get\<close> and changes nothing, so a START that
  succeeds found a block in the queue. A write on a READY TX stream whose semaphore is
  available and whose queue has room returns 0, takes the semaphore and queues the
  block. After such a write on an empty queue, START (with the DMA calls accepted)
  succeeds and that block is the one in flight.
\<close>

theorem tx_start_needs_written_block:
  assumes "\<not> CONFIG_I2S_STM32_TX_UNDERRUN_LAST_REPEAT k"
  shows "(state (tx s) = I2S_STATE_READY
          \<and> tail (mem_block_queue (tx s)) = head (mem_block_queue (tx s)) \<longrightarrow>
            i2s_stm32_trigger k c x I2S_DIR_TX I2S_TRIGGER_START s = Some (- ENOMEM, s))
       \<and> (i2s_stm32_trigger k c x I2S_DIR_TX I2S_TRIGGER_START s = Some (0, s') \<longrightarrow>
            tail (mem_block_queue (tx s)) \<noteq> head (mem_block_queue (tx s)))
       \<and> (state (tx s) = I2S_STATE_READY \<and> 0 < sem_count (sem (tx s))
          \<and> queue_put (mem_block_queue (tx s)) b sz = Inr q' \<longrightarrow>
            i2s_stm32_write b sz s =
              (0, s\<lparr>tx := (tx s)\<lparr>sem := (sem (tx s))\<lparr>sem_count := sem_count (sem (tx s)) - 1\<rparr>,
                                   mem_block_queue := q'\<rparr>\<rparr>))
       \<and> (state (tx s) = I2S_STATE_READY \<and> 0 < sem_count (sem (tx s))
          \<and> rb_wf (mem_block_queue (tx s))
          \<and> tail (mem_block_queue (tx s)) = head (mem_block_queue (tx s))
          \<and> queue_put (mem_block_queue (tx s)) b sz = Inr q'
          \<and> 0 \<le> tx_dma_config_ret x \<and> 0 \<le> tx_dma_start_ret x \<longrightarrow>
            (\<exists>s2. i2s_stm32_trigger k c x I2S_DIR_TX I2S_TRIGGER_START (snd (i2s_stm32_write b sz s))
                    = Some (0, s2)
                \<and> state (tx s2) = I2S_STATE_RUNNING \<and> mem_block (tx s2) = b
                \<and> mem_block_size (tx s2) = sz
                \<and> dma_running (tx_dma s2) \<and> dma_source_address (tx_dma s2) = b))"
proof (intro conjI impI; (elim conjE)?)
  assume "state (tx s) = I2S_STATE_READY"
    and "tail (mem_block_queue (tx s)) = head (mem_block_queue (tx s))"
  then show "i2s_stm32_trigger k c x I2S_DIR_TX I2S_TRIGGER_START s = Some (- ENOMEM, s)"
    using tx_start_empty [OF assms, of s c x]
    by (simp add: i2s_stm32_trigger_def i2s_stm32_trigger_half_duplex_def stream_start_def strm_def)
next
  assume "i2s_stm32_trigger k c x I2S_DIR_TX I2S_TRIGGER_START s = Some (0, s')"
  then obtain s1 where "tx_stream_start k c x s = (0, s1)"
    by (auto simp: i2s_stm32_trigger_def i2s_stm32_trigger_half_duplex_def stream_start_def
        strm_def tx_stream_start_def split: if_splits prod.splits)
  then show "tail (mem_block_queue (tx s)) \<noteq> head (mem_block_queue (tx s))"
    by (rule tx_start_ok_nonempty [OF assms])
next
  assume "state (tx s) = I2S_STATE_READY" "0 < sem_count (sem (tx s))"
    "queue_put (mem_block_queue (tx s)) b sz = Inr q'"
  then show "i2s_stm32_write b sz s =
              (0, s\<lparr>tx := (tx s)\<lparr>sem := (sem (tx s))\<lparr>sem_count := sem_count (sem (tx s)) - 1\<rparr>,
                                   mem_block_queue := q'\<rparr>\<rparr>)"
    by (simp add: i2s_stm32_write_def k_sem_take_def)
next
  assume a: "state (tx s) = I2S_STATE_READY" "0 < sem_count (sem (tx s))"
    "rb_wf (mem_block_queue (tx s))"
    "tail (mem_block_queue (tx s)) = head (mem_block_queue (tx s))"
    "queue_put (mem_block_queue (tx s)) b sz = Inr q'"
    "0 \<le> tx_dma_config_ret x" "0 \<le> tx_dma_start_ret x"
  have w: "i2s_stm32_write b sz s =
              (0, s\<lparr>tx := (tx s)\<lparr>sem := (sem (tx s))\<lparr>sem_count := sem_count (sem (tx s)) - 1\<rparr>,
                                   mem_block_queue := q'\<rparr>\<rparr>)"
    using a(1,2,5) by (simp add: i2s_stm32_write_def k_sem_take_def)
  from queue_put_get_single [OF a(3,4,5)] obtain q'' where g: "queue_get q' = Inr ((b, sz), q'')"
    by blast
  show "\<exists>s2. i2s_stm32_trigger k c x I2S_DIR_TX I2S_TRIGGER_START (snd (i2s_stm32_write b sz s))
                    = Some (0, s2)
                \<and> state (tx s2) = I2S_STATE_RUNNING \<and> mem_block (tx s2) = b
                \<and> mem_block_size (tx s2) = sz
                \<and> dma_running (tx_dma s2) \<and> dma_source_address (tx_dma s2) = b"
    using assms a(1,6,7) g
    by (simp add: w i2s_stm32_trigger_def i2s_stm32_trigger_half_duplex_def stream_start_def
        strm_def strm_set_def tx_stream_start_def tx_stream_start_dma_def Let_def
        start_dma_def dma_config_def dma_start_def)
qed

theorem tx_start_needs_written_block_witness:
  "i2s_stm32_trigger (kconfig_of False False False) board_cfg ext_ok I2S_DIR_TX I2S_TRIGGER_START
     dev_ready = Some (- ENOMEM, dev_ready)
   \<and> fst (i2s_stm32_write 700 64 dev_ready) = 0
   \<and> (\<exists>s2. i2s_stm32_trigger (kconfig_of False False False) board_cfg ext_ok I2S_DIR_TX
              I2S_TRIGGER_START (snd (i2s_stm32_write 700 64 dev_ready)) = Some (0, s2)
          \<and> state (tx s2) = I2S_STATE_RUNNING \<and> mem_block (tx s2) = 700
          \<and> tail (mem_block_queue (tx (snd (i2s_stm32_write 700 64 dev_ready))))
              \<noteq> head (mem_block_queue (tx (snd (i2s_stm32_write 700 64 dev_ready)))))"
proof -
  let ?k = "kconfig_of False False False"
  let ?q' = "\<lparr>buf = [(700, 64), (NULL, 0), (NULL, 0)], len = 3, head = 1, tail = 0\<rparr> :: ring_buf"
  have k: "\<not> CONFIG_I2S_STM32_TX_UNDERRUN_LAST_REPEAT ?k" by (simp add: instance_defs)
  have q: "mem_block_queue (tx dev_ready)
      = \<lparr>buf = [(NULL, 0), (NULL, 0), (NULL, 0)], len = 3, head = 0, tail = 0\<rparr>"
    by (simp add: instance_defs numeral_3_eq_3)
  have h: "state (tx dev_ready) = I2S_STATE_READY"
    "tail (mem_block_queue (tx dev_ready)) = head (mem_block_queue (tx dev_ready))"
    "0 < sem_count (sem (tx dev_ready))"
    "rb_wf (mem_block_queue (tx dev_ready))"
    "queue_put (mem_block_queue (tx dev_ready)) 700 64 = Inr ?q'"
    "0 \<le> tx_dma_config_ret ext_ok" "0 \<le> tx_dma_start_ret ext_ok"
    unfolding q by (simp_all add: instance_defs rb_wf_def queue_put_def MODULO_INC_def)
  note t = tx_start_needs_written_block [OF k, of dev_ready board_cfg ext_ok _ 700 64 ?q']
  from t h have a: "i2s_stm32_trigger ?k board_cfg ext_ok I2S_DIR_TX I2S_TRIGGER_START dev_ready
      = Some (- ENOMEM, dev_ready)" by blast
  from t h have w: "fst (i2s_stm32_write 700 64 dev_ready) = 0" by simp
  from t h obtain s2 where
    s2: "i2s_stm32_trigger ?k board_cfg ext_ok I2S_DIR_TX I2S_TRIGGER_START
           (snd (i2s_stm32_write 700 64 dev_ready)) = Some (0, s2)"
      "state (tx s2) = I2S_STATE_RUNNING" "mem_block (tx s2) = 700" by blast
  from tx_start_needs_written_block [OF k, of "snd (i2s_stm32_write 700 64 dev_ready)" board_cfg
      ext_ok s2] s2(1)
  have "tail (mem_block_queue (tx (snd (i2s_stm32_write 700 64 dev_ready))))
              \<noteq> head (mem_block_queue (tx (snd (i2s_stm32_write 700 64 dev_ready))))" by blast
  with a w s2 show ?thesis by blast
qed

subsection \<open>The example states are reachable\<close>

text \<open>
  The states used in the examples above are states of the driver: configuring both
  directions of the initial device gives \<open>dev_ready\<close>; writing block 601 and starting
  both directions gives \<open>dev_running\<close>; two RX completions later the RX queue is full.
  With the repeat-last-block policy, writing block 601 and starting the TX direction
  gives \<open>dev_tx_repeat\<close>.
\<close>

lemma dev_ready_reached:
  "i2s_stm32_configure (kconfig_of True False False) i2s_h_values board_cfg ext_ok I2S_DIR_BOTH
     example_config (i2s_stm32_data_init 2 2 ((\<lambda>_. [])(500 := [602, 603, 604, 605, 606])))
   = Some (0, dev_ready)"
  by (simp add: i2s_stm32_configure_def i2s_stm32_configure_stream_def
      i2s_stm32_configure_periph_def i2s_stm32_set_clock_def div_round_closest_def
      instance_defs Let_def strm_def strm_set_def numeral_3_eq_3)

lemma dev_running_reached:
  "fst (i2s_stm32_write 601 64 dev_ready) = 0
   \<and> i2s_stm32_trigger (kconfig_of True False False) board_cfg ext_ok I2S_DIR_BOTH
       I2S_TRIGGER_START (snd (i2s_stm32_write 601 64 dev_ready)) = Some (0, dev_running)"
  by (simp add: i2s_stm32_write_def k_sem_take_def queue_put_def queue_get_def MODULO_INC_def
      i2s_stm32_trigger_def i2s_stm32_trigger_full_duplex_def full_duplex_stream_start_def
      rx_stream_start_dma_def tx_stream_start_dma_def k_mem_slab_alloc_def start_dma_def
      dma_config_def dma_start_def k_sem_give_def rx_data_reg_def tx_data_reg_def
      LL_I2S_EnableIT_errors_def LL_SPI_StartMasterTransfer_def
      instance_defs Let_def numeral_3_eq_3)

lemma dev_rx_full_reached:
  "dma_rx_callback (kconfig_of True True False) board_cfg ext_ok 0
     (dma_rx_callback (kconfig_of True True False) board_cfg ext_ok 0 dev_running) = dev_rx_full"
  by (simp add: dma_rx_callback_def k_mem_slab_alloc_def reload_dma_def dma_reload_def
      dma_start_def queue_put_def MODULO_INC_def k_sem_give_def rx_data_reg_def
      instance_defs Let_def numeral_3_eq_3)


lemma dev_tx_repeat_reached:
  "fst (i2s_stm32_write 601 64 dev_ready) = 0
   \<and> i2s_stm32_trigger (kconfig_of False False True) board_cfg ext_ok I2S_DIR_TX
       I2S_TRIGGER_START (snd (i2s_stm32_write 601 64 dev_ready)) = Some (0, dev_tx_repeat)"
  by (simp add: i2s_stm32_write_def k_sem_take_def queue_put_def queue_get_def MODULO_INC_def
      i2s_stm32_trigger_def i2s_stm32_trigger_half_duplex_def stream_start_def
      tx_stream_start_def tx_stream_start_dma_def k_mem_slab_alloc_def start_dma_def
      dma_config_def dma_start_def k_sem_give_def tx_data_reg_def strm_def strm_set_def
      LL_I2S_EnableIT_errors_def LL_SPI_StartMasterTransfer_def
      instance_defs Let_def numeral_3_eq_3)

end
